theory Spec2Isabelle
  imports Complex_Main
begin

section \<open>Common conventions\<close>

text \<open>
  Python floats are modelled as exact real numbers, Python ints as \<open>int\<close>. Every
  exception the modelled code can raise is a value of \<open>py_error\<close>, returned as \<open>Inl\<close>.
  Calls to the logger are modelled by the list of events a call emits: the level and the
  constant part of the message.
\<close>

datatype py_error = ZeroDivisionError | ValueError | IndexError | TypeError

datatype log_level = DEBUG | INFO | WARNING | ERROR

type_synonym log_event = "log_level \<times> string"

text \<open>Python's \<open>int(x)\<close> on a float truncates toward zero.\<close>

definition py_int :: "real \<Rightarrow> int" where
  "py_int x = (if 0 \<le> x then \<lfloor>x\<rfloor> else \<lceil>x\<rceil>)"

text \<open>Python's \<open>round(x)\<close> on a float rounds to the nearest integer, ties to the even one.\<close>

definition py_round :: "real \<Rightarrow> int" where
  "py_round x =
     (let f = \<lfloor>x\<rfloor>; r = x - of_int f
      in if r < 1 / 2 then f
         else if 1 / 2 < r then f + 1
         else if even f then f else f + 1)"

section \<open>timing\_calculator.py\<close>

record timing_calculator =
  audio_duration :: real
  OPENING_PART1_DURATION :: real
  OPENING_PART2_DURATION :: real
  IMAGE_DURATION :: real
  MIN_CLOSING_DURATION :: real

record timings =
  t_opening_part1 :: real
  t_opening_part2 :: real
  t_image_duration :: real
  t_regular_images_total :: real
  t_closing :: real
  t_total_video :: real
  t_num_images :: int

text \<open>\<open>dict.get(key, default)\<close> on the timing configuration.\<close>

definition dict_get :: "(string \<rightharpoonup> real) \<Rightarrow> string \<Rightarrow> real \<Rightarrow> real" where
  "dict_get d k dflt = (case d k of None \<Rightarrow> dflt | Some v \<Rightarrow> v)"

definition TimingCalculator_init :: "real \<Rightarrow> (string \<rightharpoonup> real) \<Rightarrow> timing_calculator" where
  "TimingCalculator_init audio timing_config =
     \<lparr> audio_duration = audio,
       OPENING_PART1_DURATION = dict_get timing_config ''opening_part1_duration'' 3,
       OPENING_PART2_DURATION = dict_get timing_config ''opening_part2_duration'' 6,
       IMAGE_DURATION = dict_get timing_config ''duration_per_image''
                          (dict_get timing_config ''image_duration'' 6),
       MIN_CLOSING_DURATION = dict_get timing_config ''min_closing_duration'' 8 \<rparr>"

definition log_timing_breakdown :: "timing_calculator \<Rightarrow> timings \<Rightarrow> log_event list" where
  "log_timing_breakdown c t =
     [(INFO, ''TIMING BREAKDOWN:'')] @
     (let time_diff = \<bar>t_total_video t - audio_duration c\<bar>
      in if time_diff < 1 / 2 then [(INFO, ''Video matches audio'')]
         else [(WARNING, ''Video differs from audio'')])"

text \<open>
  \<open>calculate_timings\<close> returns the dictionary, the calculator after the call (the call
  may overwrite \<open>IMAGE_DURATION\<close>) and the emitted log events. The float division by
  the image count raises \<open>ZeroDivisionError\<close> in Python when the count is zero.
\<close>

definition calculate_timings ::
  "timing_calculator \<Rightarrow> int \<Rightarrow> py_error + (timings \<times> timing_calculator \<times> log_event list)" where
  "calculate_timings c num_regular_images =
     (let regular_images_total = of_int num_regular_images * IMAGE_DURATION c;
          closing_duration = audio_duration c - OPENING_PART1_DURATION c
                             - OPENING_PART2_DURATION c - regular_images_total;
          finish = (\<lambda>c' regular_images_total closing_duration logs.
             let total_video_duration = OPENING_PART1_DURATION c' + OPENING_PART2_DURATION c'
                                        + regular_images_total + closing_duration;
                 t = \<lparr> t_opening_part1 = OPENING_PART1_DURATION c',
                       t_opening_part2 = OPENING_PART2_DURATION c',
                       t_image_duration = IMAGE_DURATION c',
                       t_regular_images_total = regular_images_total,
                       t_closing = closing_duration,
                       t_total_video = total_video_duration,
                       t_num_images = num_regular_images \<rparr>
             in Inr (t, c', logs @ log_timing_breakdown c' t))
      in if closing_duration < MIN_CLOSING_DURATION c then
           (let logs1 = [(WARNING, ''Calculated closing duration is less than minimum'')];
                available_time = audio_duration c - OPENING_PART1_DURATION c
                                 - OPENING_PART2_DURATION c - MIN_CLOSING_DURATION c
            in if 0 < available_time then
                 (if num_regular_images = 0 then Inl ZeroDivisionError
                  else
                    let adjusted_image_duration = available_time / of_int num_regular_images;
                        c' = c\<lparr>IMAGE_DURATION := adjusted_image_duration\<rparr>
                    in finish c' (of_int num_regular_images * IMAGE_DURATION c')
                         (MIN_CLOSING_DURATION c')
                         (logs1 @ [(INFO, ''Adjusted image duration'')]))
               else
                 finish c regular_images_total (MIN_CLOSING_DURATION c)
                   (logs1 @ [(ERROR, ''Cannot fit all segments within audio duration.'')]))
         else finish c regular_images_total closing_duration [])"

definition get_image_durations :: "timing_calculator \<Rightarrow> nat \<Rightarrow> real list" where
  "get_image_durations c num_images = replicate num_images (IMAGE_DURATION c)"

text \<open>An audio track of 10 seconds with the default configuration, used with 7 images.\<close>

definition short_audio_example :: timing_calculator where
  "short_audio_example =
     \<lparr> audio_duration = 10, OPENING_PART1_DURATION = 3, OPENING_PART2_DURATION = 6,
       IMAGE_DURATION = 6, MIN_CLOSING_DURATION = 8 \<rparr>"

section \<open>The random source\<close>

text \<open>
  The module-level generator of Python's \<open>random\<close> is modelled as the infinite sequence
  of the values that \<open>random.random()\<close> will return; a draw takes the first value and
  leaves the rest. The library functions built on it are modelled by their contract:
  \<open>random.choice\<close> raises \<open>IndexError\<close> on an empty sequence and otherwise returns
  the element at the drawn position; \<open>random.choices\<close> with weights raises
  \<open>ValueError\<close> when the weights do not sum to more than zero and otherwise returns the
  element whose cumulative weight first exceeds the drawn fraction of the total (the last
  element if none does).
\<close>

type_synonym rng = "nat \<Rightarrow> real"

definition random_random :: "rng \<Rightarrow> real \<times> rng" where
  "random_random r = (r 0, (\<lambda>i. r (Suc i)))"

definition random_uniform :: "real \<Rightarrow> real \<Rightarrow> rng \<Rightarrow> real \<times> rng" where
  "random_uniform a b r = (case random_random r of (u, r') \<Rightarrow> (a + (b - a) * u, r'))"

definition random_choice :: "'a list \<Rightarrow> rng \<Rightarrow> py_error + ('a \<times> rng)" where
  "random_choice xs r =
     (if xs = [] then Inl IndexError
      else case random_random r of (u, r') \<Rightarrow>
        Inr (xs ! min (nat \<lfloor>u * of_nat (length xs)\<rfloor>) (length xs - 1), r'))"

fun cumulative :: "real \<Rightarrow> real list \<Rightarrow> real list" where
  "cumulative acc [] = []"
| "cumulative acc (w # ws) = (acc + w) # cumulative (acc + w) ws"

fun bisect_pick :: "'a \<Rightarrow> 'a list \<Rightarrow> real list \<Rightarrow> real \<Rightarrow> 'a" where
  "bisect_pick x [] cs v = x"
| "bisect_pick x (y # ys) [] v = x"
| "bisect_pick x (y # ys) (c # cs) v = (if v < c then x else bisect_pick y ys cs v)"

definition random_choices1 :: "'a list \<Rightarrow> real list \<Rightarrow> rng \<Rightarrow> py_error + ('a \<times> rng)" where
  "random_choices1 population weights r =
     (if population = [] then Inl IndexError
      else if length weights \<noteq> length population then Inl ValueError
      else if sum_list weights \<le> 0 then Inl ValueError
      else case random_random r of (u, r') \<Rightarrow>
        Inr (bisect_pick (hd population) (tl population) (cumulative 0 weights)
               (u * sum_list weights), r'))"

text \<open>A source that always returns 0, and one that always returns 0.999.\<close>

definition zero_rng :: rng where
  "zero_rng = (\<lambda>_. 0)"

definition high_rng :: rng where
  "high_rng = (\<lambda>_. 999 / 1000)"

section \<open>transitions.py\<close>

datatype TransitionCategory = GENTLE | DYNAMIC | ARTISTIC

text \<open>Iterating over the enumeration yields its members in definition order.\<close>

definition all_categories :: "TransitionCategory list" where
  "all_categories = [GENTLE, DYNAMIC, ARTISTIC]"

text \<open>\<open>TransitionCategory(value)\<close>: the member with that value, \<open>None\<close> for \<open>ValueError\<close>.\<close>

definition TransitionCategory_of_value :: "string \<Rightarrow> TransitionCategory option" where
  "TransitionCategory_of_value v =
     (if v = ''gentle'' then Some GENTLE
      else if v = ''dynamic'' then Some DYNAMIC
      else if v = ''artistic'' then Some ARTISTIC
      else None)"

text \<open>\<open>str.lower()\<close>, on ASCII text.\<close>

definition lower_char :: "char \<Rightarrow> char" where
  "lower_char ch = (let k = (of_char ch :: nat)
                    in if 65 \<le> k \<and> k \<le> 90 then char_of (k + 32) else ch)"

definition str_lower :: "string \<Rightarrow> string" where
  "str_lower s = map lower_char s"

record Transition =
  tr_name :: string
  tr_category :: TransitionCategory
  tr_description :: string

definition mk_transition :: "string \<Rightarrow> TransitionCategory \<Rightarrow> string \<Rightarrow> Transition" where
  "mk_transition n c d = \<lparr> tr_name = n, tr_category = c, tr_description = d \<rparr>"

definition GENTLE_TRANSITIONS :: "Transition list" where
  "GENTLE_TRANSITIONS =
     [mk_transition ''circlecrop'' GENTLE ''Soft circular crop reveal'',
      mk_transition ''circleclose'' GENTLE ''Circular close transition'',
      mk_transition ''circleopen'' GENTLE ''Circular open transition'',
      mk_transition ''fade'' GENTLE ''Classic fade transition'',
      mk_transition ''fadeblack'' GENTLE ''Fade through black'',
      mk_transition ''fadewhite'' GENTLE ''Fade through white'',
      mk_transition ''dissolve'' GENTLE ''Smooth dissolve'',
      mk_transition ''pixelize'' GENTLE ''Subtle pixelize effect'',
      mk_transition ''hblur'' GENTLE ''Horizontal blur transition'',
      mk_transition ''vdslice'' GENTLE ''Vertical down slice transition'',
      mk_transition ''fadegrays'' GENTLE ''Fade to grayscale transition'',
      mk_transition ''fadefast'' GENTLE ''Fast fade transition'']"

definition DYNAMIC_TRANSITIONS :: "Transition list" where
  "DYNAMIC_TRANSITIONS =
     [mk_transition ''smoothleft'' DYNAMIC ''Smooth left slide'',
      mk_transition ''smoothright'' DYNAMIC ''Smooth right slide'',
      mk_transition ''smoothup'' DYNAMIC ''Smooth upward slide'',
      mk_transition ''smoothdown'' DYNAMIC ''Smooth downward slide'',
      mk_transition ''diagtl'' DYNAMIC ''Diagonal top-left'',
      mk_transition ''diagtr'' DYNAMIC ''Diagonal top-right'',
      mk_transition ''diagbl'' DYNAMIC ''Diagonal bottom-left'',
      mk_transition ''diagbr'' DYNAMIC ''Diagonal bottom-right'',
      mk_transition ''hlwind'' DYNAMIC ''Horizontal left wind'',
      mk_transition ''hrwind'' DYNAMIC ''Horizontal right wind'']"

definition ARTISTIC_TRANSITIONS :: "Transition list" where
  "ARTISTIC_TRANSITIONS =
     [mk_transition ''radial'' ARTISTIC ''Radial wipe transition'',
      mk_transition ''zoomin'' ARTISTIC ''Zoom in transition'',
      mk_transition ''squeezeh'' ARTISTIC ''Horizontal squeeze'',
      mk_transition ''squeezev'' ARTISTIC ''Vertical squeeze'']"

record TransitionSelector =
  simple_mode :: bool
  anniversary_mode :: bool
  history :: "string list"
  category_history :: "TransitionCategory list"
  same_category_count :: int
  overlay_history :: "bool list"
  overlay_count :: int
  category_weights :: "TransitionCategory \<rightharpoonup> real"
  transitions :: "Transition list"

text \<open>
  The constructor receives the weights dictionary as its items in order. Keys that name
  no category are skipped (with a warning in the source); if none is left, the default
  weights are used. The selector's debug and warning messages change no state and are
  left out of this part of the model.
\<close>

fun convert_weights ::
  "(string \<times> real) list \<Rightarrow> (TransitionCategory \<rightharpoonup> real) \<Rightarrow> (TransitionCategory \<rightharpoonup> real)" where
  "convert_weights [] m = m"
| "convert_weights ((category_name, weight) # rest) m =
     (case TransitionCategory_of_value (str_lower category_name) of
        Some category \<Rightarrow> convert_weights rest (m(category \<mapsto> weight))
      | None \<Rightarrow> convert_weights rest m)"

definition default_category_weights :: "TransitionCategory \<rightharpoonup> real" where
  "default_category_weights =
     [GENTLE \<mapsto> 70 / 100, DYNAMIC \<mapsto> 20 / 100, ARTISTIC \<mapsto> 10 / 100]"

definition TransitionSelector_init ::
  "(string \<times> real) list \<Rightarrow> bool \<Rightarrow> bool \<Rightarrow> TransitionSelector" where
  "TransitionSelector_init weights simple anniversary =
     (let cw = convert_weights weights Map.empty
      in \<lparr> simple_mode = simple,
            anniversary_mode = anniversary,
            history = [],
            category_history = [],
            same_category_count = 0,
            overlay_history = [],
            overlay_count = 0,
            category_weights =
              (if list_all (\<lambda>cat. cw cat = None) all_categories
               then default_category_weights else cw),
            transitions =
              (if simple then take 6 GENTLE_TRANSITIONS
               else GENTLE_TRANSITIONS @ DYNAMIC_TRANSITIONS @ ARTISTIC_TRANSITIONS) \<rparr>)"

text \<open>The slice \<open>xs[-n:]\<close> for a positive \<open>n\<close>: the last \<open>n\<close> elements, or all of them.\<close>

definition last_n :: "nat \<Rightarrow> 'a list \<Rightarrow> 'a list" where
  "last_n n xs = drop (length xs - n) xs"

definition weights_of :: "TransitionSelector \<Rightarrow> TransitionCategory list \<Rightarrow> real list" where
  "weights_of s cats = map (\<lambda>cat. the (category_weights s cat)) cats"

text \<open>
  \<open>_select_category\<close>. The test \<open>len(set(recent_categories)) == 1\<close> counts the distinct
  members of the slice.
\<close>

definition select_category ::
  "TransitionSelector \<Rightarrow> rng \<Rightarrow> py_error + (TransitionCategory \<times> rng)" where
  "select_category s r =
     (let recent_categories = last_n 3 (category_history s)
      in if 3 \<le> length (category_history s) \<and> length (remdups recent_categories) = 1 then
           (let current_cat = hd recent_categories;
                available_cats = filter (\<lambda>cat. cat \<noteq> current_cat \<and> category_weights s cat \<noteq> None)
                                   all_categories;
                weights = weights_of s available_cats
            in if available_cats = [] \<or> weights = [] \<or> sum_list weights = 0 then
                 (let available_cats = filter (\<lambda>cat. cat \<noteq> current_cat) all_categories
                  in if available_cats \<noteq> [] then random_choice available_cats r
                     else random_choice all_categories r)
               else random_choices1 available_cats weights r)
         else
           (let categories = filter (\<lambda>cat. category_weights s cat \<noteq> None) all_categories;
                weights = weights_of s categories
            in if categories = [] \<or> weights = [] \<or> sum_list weights = 0 then
                 random_choice all_categories r
               else random_choices1 categories weights r))"

text \<open>The transitions of the selected category, or all of them when it has none.\<close>

definition category_pool :: "TransitionSelector \<Rightarrow> TransitionCategory \<Rightarrow> Transition list" where
  "category_pool s category =
     (let category_transitions = filter (\<lambda>t. tr_category t = category) (transitions s)
      in if category_transitions = [] then transitions s else category_transitions)"

text \<open>The pool without the names in \<open>history[-2:]\<close>.\<close>

definition filtered_pool :: "TransitionSelector \<Rightarrow> Transition list \<Rightarrow> Transition list" where
  "filtered_pool s category_transitions =
     filter (\<lambda>t. tr_name t \<notin> set (last_n 2 (history s))) category_transitions"

definition select_next ::
  "TransitionSelector \<Rightarrow> rng \<Rightarrow> py_error + (Transition \<times> TransitionSelector \<times> rng)" where
  "select_next s r =
     (case select_category s r of
        Inl e \<Rightarrow> Inl e
      | Inr (category, r1) \<Rightarrow>
          (let category_transitions = category_pool s category;
               available = filtered_pool s category_transitions;
               available = (if available = [] then category_transitions else available)
           in case random_choice available r1 of
                Inl e \<Rightarrow> Inl e
              | Inr (transition, r2) \<Rightarrow>
                  Inr (transition,
                       s\<lparr> history := history s @ [tr_name transition],
                          category_history := category_history s @ [category] \<rparr>,
                       r2)))"

text \<open>A sequence of calls of \<open>select_next\<close>, as made once per segment boundary.\<close>

fun select_many ::
  "nat \<Rightarrow> TransitionSelector \<Rightarrow> rng \<Rightarrow> py_error + (Transition list \<times> TransitionSelector \<times> rng)" where
  "select_many 0 s r = Inr ([], s, r)"
| "select_many (Suc n) s r =
     (case select_next s r of
        Inl e \<Rightarrow> Inl e
      | Inr (t, s1, r1) \<Rightarrow>
          (case select_many n s1 r1 of
             Inl e \<Rightarrow> Inl e
           | Inr (ts, s2, r2) \<Rightarrow> Inr (t # ts, s2, r2)))"

text \<open>
  \<open>should_add_anniversary_overlay\<close> begins with \<open>return False\<close>. The statements that
  follow it in the source are never executed; they are translated separately below as
  \<open>anniversary_overlay_policy\<close>.
\<close>

definition should_add_anniversary_overlay ::
  "TransitionSelector \<Rightarrow> rng \<Rightarrow> int \<Rightarrow> int \<Rightarrow> bool \<times> TransitionSelector \<times> rng" where
  "should_add_anniversary_overlay s r transition_index total_transitions = (False, s, r)"

definition anniversary_overlay_policy ::
  "TransitionSelector \<Rightarrow> rng \<Rightarrow> int \<Rightarrow> int \<Rightarrow> bool \<times> TransitionSelector \<times> rng" where
  "anniversary_overlay_policy s r transition_index total_transitions =
     (if \<not> anniversary_mode s then (False, s, r)
      else if overlay_history s \<noteq> [] \<and> last (overlay_history s) then
        (False, s\<lparr>overlay_history := overlay_history s @ [False]\<rparr>, r)
      else
        (let current_percentage =
               (of_int (overlay_count s) / of_nat (max (length (overlay_history s)) 1)) * 100;
             target_percentage = (25 :: real);
             probability = (if current_percentage < target_percentage then 35 / 100
                            else (15 / 100 :: real))
         in case random_random r of (u, r') \<Rightarrow>
           (let add_overlay = (u < probability);
                s1 = s\<lparr>overlay_history := overlay_history s @ [add_overlay]\<rparr>;
                s2 = (if add_overlay then s1\<lparr>overlay_count := overlay_count s1 + 1\<rparr> else s1)
            in (add_overlay, s2, r'))))"

text \<open>At least two categories carry a non-zero weight.\<close>

definition two_categories_weighted :: "TransitionSelector \<Rightarrow> bool" where
  "two_categories_weighted s \<longleftrightarrow>
     2 \<le> length (filter (\<lambda>cat. case category_weights s cat of None \<Rightarrow> False | Some w \<Rightarrow> w \<noteq> 0)
                   all_categories)"

text \<open>
  The forced switch, as a property of a sequence of drawn categories: after three equal
  entries the next one differs and satisfies \<open>P\<close>.
\<close>

definition switch_inv :: "(TransitionCategory \<Rightarrow> bool) \<Rightarrow> TransitionCategory list \<Rightarrow> bool" where
  "switch_inv P h \<longleftrightarrow>
     (\<forall>i. i + 3 < length h \<and> h ! i = h ! (i + 1) \<and> h ! (i + 1) = h ! (i + 2)
          \<longrightarrow> h ! (i + 3) \<noteq> h ! (i + 2) \<and> P (h ! (i + 3)))"

text \<open>The selector built from an empty weights dictionary, in normal mode.\<close>

definition default_selector :: TransitionSelector where
  "default_selector = TransitionSelector_init [] False False"


section \<open>particle\_overlay.py\<close>

datatype ParticleType = HEARTS | SPARKLES | PETALS | CONFETTI | RANDOM

definition CONCRETE_TYPES :: "ParticleType list" where
  "CONCRETE_TYPES = [HEARTS, SPARKLES, PETALS, CONFETTI]"

text \<open>\<open>ParticleType(value)\<close>: the member with that value, \<open>None\<close> for \<open>ValueError\<close>.\<close>

definition ParticleType_of_value :: "string \<Rightarrow> ParticleType option" where
  "ParticleType_of_value v =
     (if v = ''hearts'' then Some HEARTS
      else if v = ''sparkles'' then Some SPARKLES
      else if v = ''petals'' then Some PETALS
      else if v = ''confetti'' then Some CONFETTI
      else if v = ''random'' then Some RANDOM
      else None)"

type_synonym rgb = "nat \<times> nat \<times> nat"

text \<open>The dictionary \<open>DEFAULT_COLORS\<close>; it has no entry for \<open>RANDOM\<close>.\<close>

fun DEFAULT_COLORS :: "ParticleType \<Rightarrow> rgb list option" where
  "DEFAULT_COLORS HEARTS = Some [(220, 20, 60), (255, 105, 180), (255, 182, 193), (199, 21, 133)]"
| "DEFAULT_COLORS SPARKLES = Some [(255, 255, 224), (255, 215, 0), (255, 255, 255), (255, 250, 205)]"
| "DEFAULT_COLORS PETALS = Some [(255, 182, 193), (255, 192, 203), (255, 228, 225), (219, 112, 147)]"
| "DEFAULT_COLORS CONFETTI = Some [(255, 50, 50), (50, 130, 255), (255, 215, 0), (50, 200, 50),
                                   (255, 105, 180), (148, 0, 211), (255, 165, 0)]"
| "DEFAULT_COLORS RANDOM = None"

record Particle =
  p_x :: real
  p_y :: real
  p_size :: real
  p_alpha :: real
  p_rotation :: real
  p_speed_x :: real
  p_speed_y :: real
  p_color :: rgb
  p_life :: real
  p_max_life :: real
  p_rotation_speed :: real
  p_phase :: real
  p_base_alpha :: real

record ParticleOverlayGenerator =
  width :: int
  height :: int
  fps :: int
  enabled :: bool
  particle_type :: ParticleType
  is_random_mode :: bool
  density :: real
  application_rate :: real
  size_multiplier :: real
  colors :: "rgb list"
  particle_count :: int

text \<open>The table \<open>size_map\<close> of the constructor, with its default 1.0.\<close>

definition size_map :: "string \<Rightarrow> real" where
  "size_map label =
     (if label = ''extra_small'' then 25 / 100
      else if label = ''small'' then 5 / 10
      else if label = ''medium'' then 1
      else if label = ''large'' then 15 / 10
      else if label = ''extra_large'' then 2
      else 1)"

text \<open>
  The constructor, applied to the values it reads from the overlay configuration
  (\<open>enabled\<close>, \<open>type\<close>, \<open>density\<close>, \<open>application_rate\<close>, \<open>size\<close>), the resolution and the
  frame rate.
\<close>

definition ParticleOverlayGenerator_init ::
  "bool \<Rightarrow> string \<Rightarrow> real \<Rightarrow> real \<Rightarrow> string \<Rightarrow> int \<times> int \<Rightarrow> int \<Rightarrow> ParticleOverlayGenerator" where
  "ParticleOverlayGenerator_init cfg_enabled cfg_type cfg_density cfg_rate cfg_size resolution fps0 =
     (let ptype = (case ParticleType_of_value cfg_type of Some t \<Rightarrow> t | None \<Rightarrow> HEARTS);
          random_mode = (ptype = RANDOM);
          dens = max 0 (min 1 cfg_density);
          hearts = the (DEFAULT_COLORS HEARTS)
      in \<lparr> width = fst resolution,
            height = snd resolution,
            fps = fps0,
            enabled = cfg_enabled,
            particle_type = ptype,
            is_random_mode = random_mode,
            density = dens,
            application_rate = max 0 (min 1 cfg_rate),
            size_multiplier = size_map cfg_size,
            colors = (if random_mode then hearts
                      else (case DEFAULT_COLORS ptype of Some cs \<Rightarrow> cs | None \<Rightarrow> hearts)),
            particle_count = py_int (15 + dens * 35) \<rparr>)"

text \<open>
  The \<open>k\<close>-th of the coming values of the random source, scaled as \<open>random.uniform(a, b)\<close>
  scales it, and the source after \<open>n\<close> draws. A sequence of \<open>random.uniform\<close> calls is
  written with these: the first call uses position 0, the next position 1, and so on.
\<close>

definition draw :: "rng \<Rightarrow> nat \<Rightarrow> real \<Rightarrow> real \<Rightarrow> real" where
  "draw r k a b = a + (b - a) * r k"

definition rng_skip :: "nat \<Rightarrow> rng \<Rightarrow> rng" where
  "rng_skip n r = (\<lambda>i. r (i + n))"

text \<open>
  \<open>_spawn_particle\<close>. The colour is draw 0, the phase draw 1; the remaining draws follow
  in the order in which the source evaluates them. A respawned particle (\<open>initial\<close> false)
  takes no draw for its vertical position.
\<close>

definition spawn_particle ::
  "ParticleOverlayGenerator \<Rightarrow> int \<Rightarrow> bool \<Rightarrow> rng \<Rightarrow> py_error + (Particle \<times> rng)" where
  "spawn_particle g total_frames initial r =
     (if colors g = [] then Inl IndexError
      else
        let color = colors g ! min (nat \<lfloor>r 0 * of_nat (length (colors g))\<rfloor>) (length (colors g) - 1);
            phase = draw r 1 0 (2 * pi);
            sm = size_multiplier g;
            tf = of_int total_frames;
            w = of_int (width g);
            h = of_int (height g);
            k = (if initial then 6 else 5)
        in if particle_type g = HEARTS then
             (let size = draw r 2 30 85 * sm;
                  life = draw r 3 (tf * (5 / 10)) (tf * (9 / 10));
                  x = draw r 4 0 w;
                  y = (if initial then draw r 5 (h * (3 / 10)) (h * (13 / 10)) else h + size);
                  a = draw r k (6 / 10) (95 / 100)
              in Inr (\<lparr> p_x = x, p_y = y, p_size = size, p_alpha = a,
                         p_rotation = draw r (k + 1) (-15) 15,
                         p_speed_x = 0, p_speed_y = - draw r (k + 2) (15 / 10) 4,
                         p_color = color, p_life = life, p_max_life = life,
                         p_rotation_speed = draw r (k + 3) (- (5 / 10)) (5 / 10),
                         p_phase = phase, p_base_alpha = a \<rparr>,
                       rng_skip (k + 4) r))
           else if particle_type g = SPARKLES then
             (let size = draw r 2 8 28 * sm;
                  life = draw r 3 (of_int (fps g) * (5 / 10)) (of_int (fps g) * (15 / 10));
                  a = draw r 4 (6 / 10) (95 / 100)
              in Inr (\<lparr> p_x = draw r 5 0 w, p_y = draw r 6 0 h, p_size = size, p_alpha = 0,
                         p_rotation = draw r 7 0 360,
                         p_speed_x = 0, p_speed_y = 0,
                         p_color = color, p_life = life, p_max_life = life,
                         p_rotation_speed = 0,
                         p_phase = phase, p_base_alpha = a \<rparr>,
                       rng_skip 8 r))
           else if particle_type g = PETALS then
             (let size = draw r 2 15 40 * sm;
                  life = draw r 3 (tf * (4 / 10)) (tf * (8 / 10));
                  x = draw r 4 (- size) (w + size);
                  y = (if initial then draw r 5 (- h * (3 / 10)) (h * (7 / 10)) else - size * 2);
                  a = draw r k (5 / 10) (85 / 100)
              in Inr (\<lparr> p_x = x, p_y = y, p_size = size, p_alpha = a,
                         p_rotation = draw r (k + 1) 0 360,
                         p_speed_x = draw r (k + 2) (4 / 10) (12 / 10),
                         p_speed_y = draw r (k + 3) (8 / 10) 2,
                         p_color = color, p_life = life, p_max_life = life,
                         p_rotation_speed = draw r (k + 4) (-2) 2,
                         p_phase = phase, p_base_alpha = a \<rparr>,
                       rng_skip (k + 5) r))
           else
             (let size = draw r 2 6 18 * sm;
                  life = draw r 3 (tf * (3 / 10)) (tf * (7 / 10));
                  x = draw r 4 0 w;
                  y = (if initial then draw r 5 (- h * (3 / 10)) (h * (5 / 10)) else - size * 3);
                  a = draw r k (6 / 10) (95 / 100)
              in Inr (\<lparr> p_x = x, p_y = y, p_size = size, p_alpha = a,
                         p_rotation = draw r (k + 1) 0 360,
                         p_speed_x = draw r (k + 2) (- (15 / 10)) (15 / 10),
                         p_speed_y = draw r (k + 3) (15 / 10) (35 / 10),
                         p_color = color, p_life = life, p_max_life = life,
                         p_rotation_speed = draw r (k + 4) (-6) 6,
                         p_phase = phase, p_base_alpha = a \<rparr>,
                       rng_skip (k + 5) r)))"

text \<open>\<open>_init_particles\<close>: \<open>particle_count\<close> spawns, in order.\<close>

fun init_loop ::
  "ParticleOverlayGenerator \<Rightarrow> int \<Rightarrow> nat \<Rightarrow> rng \<Rightarrow> py_error + (Particle list \<times> rng)" where
  "init_loop g total_frames 0 r = Inr ([], r)"
| "init_loop g total_frames (Suc n) r =
     (case spawn_particle g total_frames True r of
        Inl e \<Rightarrow> Inl e
      | Inr (p, r1) \<Rightarrow>
          (case init_loop g total_frames n r1 of
             Inl e \<Rightarrow> Inl e
           | Inr (ps, r2) \<Rightarrow> Inr (p # ps, r2)))"

definition init_particles ::
  "ParticleOverlayGenerator \<Rightarrow> int \<Rightarrow> rng \<Rightarrow> py_error + (Particle list \<times> rng)" where
  "init_particles g total_frames r = init_loop g total_frames (nat (particle_count g)) r"

text \<open>
  The progress of a particle through its life, \<open>1.0 - (p.life / p.max_life)\<close>; the float
  division raises \<open>ZeroDivisionError\<close> on a zero \<open>max_life\<close>.
\<close>

definition life_progress :: "Particle \<Rightarrow> py_error + real" where
  "life_progress p =
     (if p_max_life p = 0 then Inl ZeroDivisionError else Inr (1 - p_life p / p_max_life p))"

text \<open>
  The in-place part of one iteration of \<open>_update_particles\<close>: the mutation of the
  particle \<open>p\<close> before the respawn test.
\<close>

definition advance_particle :: "ParticleOverlayGenerator \<Rightarrow> Particle \<Rightarrow> py_error + Particle" where
  "advance_particle g p0 =
     (let p = p0\<lparr> p_life := p_life p0 - 1,
                  p_phase := p_phase p0 + 8 / 100,
                  p_rotation := p_rotation p0 + p_rotation_speed p0 \<rparr>
      in if particle_type g = HEARTS then
           (let p1 = p\<lparr> p_y := p_y p + p_speed_y p,
                        p_x := p_x p + sin (p_phase p) * (12 / 10) \<rparr>
            in case life_progress p1 of
                 Inl e \<Rightarrow> Inl e
               | Inr progress \<Rightarrow>
                   Inr (p1\<lparr> p_alpha :=
                          (if progress < 12 / 100 then p_base_alpha p1 * (progress / (12 / 100))
                           else if 88 / 100 < progress
                             then p_base_alpha p1 * ((1 - progress) / (12 / 100))
                           else p_base_alpha p1) \<rparr>))
         else if particle_type g = SPARKLES then
           (case life_progress p of
              Inl e \<Rightarrow> Inl e
            | Inr progress \<Rightarrow>
                (let p1 = p\<lparr> p_alpha :=
                               (if progress < 2 / 10 then p_base_alpha p * (progress / (2 / 10))
                                else if 8 / 10 < progress
                                  then p_base_alpha p * ((1 - progress) / (2 / 10))
                                else p_base_alpha p * (8 / 10 + 2 / 10 * sin (p_phase p * 3))) \<rparr>;
                     p2 = p1\<lparr> p_size := p_size p1 * (97 / 100 + 6 / 100 * sin (p_phase p1 * 2)) \<rparr>
                 in Inr (p2\<lparr> p_size := max 5 (min 35 (p_size p2)) \<rparr>)))
         else if particle_type g = PETALS then
           (let p1 = p\<lparr> p_x := p_x p + (p_speed_x p + sin (p_phase p) * (6 / 10)),
                        p_y := p_y p + p_speed_y p \<rparr>
            in case life_progress p1 of
                 Inl e \<Rightarrow> Inl e
               | Inr progress \<Rightarrow>
                   Inr (p1\<lparr> p_alpha :=
                          (if progress < 1 / 10 then p_base_alpha p1 * (progress / (1 / 10))
                           else if 9 / 10 < progress
                             then p_base_alpha p1 * ((1 - progress) / (1 / 10))
                           else p_base_alpha p1) \<rparr>))
         else
           (let p1 = p\<lparr> p_x := p_x p + (p_speed_x p + sin (p_phase p * (15 / 10)) * (5 / 10)),
                        p_y := p_y p + p_speed_y p \<rparr>;
                p2 = p1\<lparr> p_speed_x := p_speed_x p1 * (999 / 1000) \<rparr>
            in Inr (if of_int (height g) * (85 / 100) < p_y p2
                    then p2\<lparr> p_alpha := p_alpha p2 * (95 / 100) \<rparr> else p2)))"

text \<open>The respawn test of each particle type: lifetime exhausted, or out of the visible area.\<close>

definition needs_respawn :: "ParticleOverlayGenerator \<Rightarrow> Particle \<Rightarrow> bool" where
  "needs_respawn g p =
     (if particle_type g = HEARTS then p_life p \<le> 0 \<or> p_y p < - p_size p * 2
      else if particle_type g = SPARKLES then p_life p \<le> 0
      else p_life p \<le> 0 \<or> of_int (height g) + p_size p * 2 < p_y p)"

definition update_particle ::
  "ParticleOverlayGenerator \<Rightarrow> int \<Rightarrow> Particle \<Rightarrow> rng \<Rightarrow> py_error + (Particle \<times> rng)" where
  "update_particle g total_frames p r =
     (case advance_particle g p of
        Inl e \<Rightarrow> Inl e
      | Inr q \<Rightarrow> if needs_respawn g q then spawn_particle g total_frames False r else Inr (q, r))"

text \<open>
  \<open>_update_particles\<close>: the loop over the slots of the list; slot \<open>i\<close> keeps its updated
  particle or is overwritten with a new one. The argument \<open>frame_num\<close> is not used.
\<close>

fun update_particles ::
  "ParticleOverlayGenerator \<Rightarrow> Particle list \<Rightarrow> int \<Rightarrow> int \<Rightarrow> rng
     \<Rightarrow> py_error + (Particle list \<times> rng)" where
  "update_particles g [] frame_num total_frames r = Inr ([], r)"
| "update_particles g (p # ps) frame_num total_frames r =
     (case update_particle g total_frames p r of
        Inl e \<Rightarrow> Inl e
      | Inr (p', r1) \<Rightarrow>
          (case update_particles g ps frame_num total_frames r1 of
             Inl e \<Rightarrow> Inl e
           | Inr (ps', r2) \<Rightarrow> Inr (p' # ps', r2)))"

text \<open>
  The frame loop of \<open>generate_overlay_video\<close>. Its state holds the local variables
  \<open>particles\<close> and \<open>current_window_idx\<close>, the random source, and the byte strings written
  to the encoder's standard input, in order. Two fields are bookkeeping of the model: each
  written byte string is tagged with the \<open>frame_num\<close> of the iteration that wrote it, and
  \<open>calls\<close> records every call of \<open>_init_particles\<close>, \<open>_update_particles\<close> and
  \<open>_render_frame\<close> with the \<open>frame_num\<close> of the iteration that made it.
\<close>

datatype sim_call = CallInit int | CallUpdate int int | CallRender

record sim_state =
  particles :: "Particle list option"
  current_window_idx :: int
  sim_rng :: rng
  written :: "(nat \<times> nat list) list"
  calls :: "(nat \<times> sim_call) list"

definition transparent_bytes :: "ParticleOverlayGenerator \<Rightarrow> nat list" where
  "transparent_bytes g = replicate (nat (width g * height g * 4)) 0"

text \<open>
  The frame ranges of the active windows: \<open>(int(start_sec * fps), min(int(end_sec * fps),
  total_frames))\<close> for each window.
\<close>

definition frame_ranges ::
  "ParticleOverlayGenerator \<Rightarrow> int \<Rightarrow> (real \<times> real) list \<Rightarrow> (int \<times> int) list" where
  "frame_ranges g total_frames active_windows =
     map (\<lambda>(start_sec, end_sec).
            (py_int (start_sec * of_int (fps g)),
             min (py_int (end_sec * of_int (fps g))) total_frames))
         active_windows"

text \<open>
  The inner loop over the ranges: the first range that contains the frame, as
  \<open>(window_idx, window_start, window_length)\<close>; \<open>None\<close> stands for \<open>window_idx == -1\<close>.
\<close>

fun find_window :: "(int \<times> int) list \<Rightarrow> nat \<Rightarrow> int \<Rightarrow> (nat \<times> int \<times> int) option" where
  "find_window [] idx frame_num = None"
| "find_window ((start, end) # rest) idx frame_num =
     (if start \<le> frame_num \<and> frame_num < end then Some (idx, start, end - start)
      else find_window rest (Suc idx) frame_num)"

text \<open>
  The calls \<open>_update_particles(particles, ...)\<close>, \<open>_render_frame(particles)\<close> and the
  write of the frame. The rasteriser \<open>rf\<close> stands for \<open>_render_frame(...).tobytes()\<close>,
  which is drawn by the imaging library. Iterating over \<open>None\<close> raises \<open>TypeError\<close>.
\<close>

definition update_and_render ::
  "ParticleOverlayGenerator \<Rightarrow> (Particle list \<Rightarrow> nat list) \<Rightarrow> nat \<Rightarrow> int \<Rightarrow> int \<Rightarrow> sim_state
     \<Rightarrow> py_error + sim_state" where
  "update_and_render g rf frame_num local_frame total_frames st =
     (case particles st of
        None \<Rightarrow> Inl TypeError
      | Some ps \<Rightarrow>
          (case update_particles g ps local_frame total_frames (sim_rng st) of
             Inl e \<Rightarrow> Inl e
           | Inr (ps', r) \<Rightarrow>
               Inr (st\<lparr> particles := Some ps',
                        sim_rng := r,
                        calls := calls st @ [(frame_num, CallUpdate local_frame total_frames),
                                             (frame_num, CallRender)],
                        written := written st @ [(frame_num, rf ps')] \<rparr>)))"

text \<open>One iteration of the loop \<open>for frame_num in range(total_frames)\<close>.\<close>

definition frame_step ::
  "ParticleOverlayGenerator \<Rightarrow> (Particle list \<Rightarrow> nat list) \<Rightarrow> (int \<times> int) list option \<Rightarrow> int
     \<Rightarrow> nat \<Rightarrow> sim_state \<Rightarrow> py_error + sim_state" where
  "frame_step g rf active_frame_ranges total_frames frame_num st =
     (case active_frame_ranges of
        Some ranges \<Rightarrow>
          (case find_window ranges 0 (int frame_num) of
             None \<Rightarrow> Inr (st\<lparr> written := written st @ [(frame_num, transparent_bytes g)] \<rparr>)
           | Some (window_idx, window_start, window_length) \<Rightarrow>
               (case (if int window_idx \<noteq> current_window_idx st then
                        (case init_particles g window_length (sim_rng st) of
                           Inl e \<Rightarrow> Inl e
                         | Inr (ps, r) \<Rightarrow>
                             Inr (st\<lparr> particles := Some ps,
                                      current_window_idx := int window_idx,
                                      sim_rng := r,
                                      calls := calls st @ [(frame_num, CallInit window_length)] \<rparr>))
                      else Inr st) of
                  Inl e \<Rightarrow> Inl e
                | Inr st1 \<Rightarrow>
                    update_and_render g rf frame_num (int frame_num - window_start)
                      window_length st1))
      | None \<Rightarrow>
          (case (if particles st = None then
                   (case init_particles g total_frames (sim_rng st) of
                      Inl e \<Rightarrow> Inl e
                    | Inr (ps, r) \<Rightarrow>
                        Inr (st\<lparr> particles := Some ps,
                                 sim_rng := r,
                                 calls := calls st @ [(frame_num, CallInit total_frames)] \<rparr>))
                 else Inr st) of
             Inl e \<Rightarrow> Inl e
           | Inr st1 \<Rightarrow> update_and_render g rf frame_num (int frame_num) total_frames st1))"

text \<open>
  The loop over the frame numbers. An exception ends it: the result is then the error and
  the state before the failing iteration, whose written frames are those already sent.
\<close>

fun run_frames ::
  "ParticleOverlayGenerator \<Rightarrow> (Particle list \<Rightarrow> nat list) \<Rightarrow> (int \<times> int) list option \<Rightarrow> int
     \<Rightarrow> nat list \<Rightarrow> sim_state \<Rightarrow> py_error option \<times> sim_state" where
  "run_frames g rf active_frame_ranges total_frames [] st = (None, st)"
| "run_frames g rf active_frame_ranges total_frames (frame_num # rest) st =
     (case frame_step g rf active_frame_ranges total_frames frame_num st of
        Inl e \<Rightarrow> (Some e, st)
      | Inr st' \<Rightarrow> run_frames g rf active_frame_ranges total_frames rest st')"

definition initial_sim_state :: "rng \<Rightarrow> sim_state" where
  "initial_sim_state r =
     \<lparr> particles = None, current_window_idx = -1, sim_rng = r, written = [], calls = [] \<rparr>"

text \<open>
  \<open>generate_overlay_video\<close>, given the module flag \<open>PIL_AVAILABLE\<close>, the rasteriser, the
  random source and the outcome of \<open>process.communicate(timeout=120)\<close>, which the source
  calls after the frame loop and \<open>process.stdin.close()\<close>: \<open>Some rc\<close> when the call
  returns and the encoder has exit status \<open>rc\<close>, \<open>None\<close> when the call raises (a
  timeout, or the \<open>ValueError\<close> of flushing the pipe that was just closed, as CPython
  raises it on POSIX). An exception is caught by the \<open>except Exception\<close> clause and
  gives \<open>return False\<close>. The model covers the runs in which the encoder process starts
  and accepts every write; \<open>None\<close> for \<open>active_windows\<close> is the argument's default. The
  result is the returned boolean and the final state of the frame loop.
\<close>

definition generate_overlay_video ::
  "ParticleOverlayGenerator \<Rightarrow> bool \<Rightarrow> (Particle list \<Rightarrow> nat list) \<Rightarrow> int option \<Rightarrow> rng
     \<Rightarrow> real \<Rightarrow> (real \<times> real) list option \<Rightarrow> bool \<times> sim_state" where
  "generate_overlay_video g PIL_AVAILABLE rf communicate r duration active_windows =
     (if \<not> PIL_AVAILABLE then (False, initial_sim_state r)
      else
        let total_frames = py_int (duration * of_int (fps g))
        in if total_frames \<le> 0 then (False, initial_sim_state r)
           else
             let active_frame_ranges =
                   (case active_windows of
                      None \<Rightarrow> None
                    | Some ws \<Rightarrow> if ws = [] then None
                                 else Some (frame_ranges g total_frames ws))
             in case run_frames g rf active_frame_ranges total_frames [0..<nat total_frames]
                       (initial_sim_state r) of
                  (Some e, st) \<Rightarrow> (False, st)
                | (None, st) \<Rightarrow>
                    (case communicate of
                       None \<Rightarrow> (False, st)
                     | Some rc \<Rightarrow> (rc = 0, st)))"

text \<open>A generator for hearts at a resolution of 2 by 1 pixels, and a rasteriser for examples.\<close>

definition tiny_generator :: ParticleOverlayGenerator where
  "tiny_generator =
     ParticleOverlayGenerator_init True ''hearts'' (5 / 10) (3 / 10) ''medium'' (2, 1) 30"

definition count_rasteriser :: "Particle list \<Rightarrow> nat list" where
  "count_rasteriser ps = replicate 8 (length ps)"

section \<open>segment\_renderer.py\<close>

record SegmentRenderer =
  sr_resolution :: "int \<times> int"
  sr_fps :: int
  sr_crf :: int
  sr_preset :: string

text \<open>
  What the encoder subprocess did, as \<open>render_segment\<close> observes it: its exit status,
  the value of \<open>frame_count\<close> after the progress lines were read (the last frame number
  parsed, 0 if none), whether the output file exists, and the duration that the probe
  reports for it (\<open>None\<close> when probing fails). \<open>EngineRaised\<close> stands for an exception
  raised inside the \<open>try\<close> block, such as a failure to start the process.
\<close>

record engine_result =
  returncode :: int
  frame_count :: int
  output_exists :: bool
  probed_duration :: "real option"

datatype engine_outcome = EngineRaised | EngineFinished engine_result

text \<open>\<open>_get_duration\<close>: on any failure it logs a warning and returns 0.0.\<close>

definition get_duration :: "real option \<Rightarrow> real \<times> log_event list" where
  "get_duration probe =
     (case probe of
        Some d \<Rightarrow> (d, [])
      | None \<Rightarrow> (0, [(WARNING, ''Could not get duration'')]))"

text \<open>
  \<open>render_segment\<close>, given the requested duration and the outcome of the encoder. The
  command line and the informational messages are not modelled; the log holds the
  warnings and errors.
\<close>

definition render_segment ::
  "SegmentRenderer \<Rightarrow> real \<Rightarrow> engine_outcome \<Rightarrow> bool \<times> log_event list" where
  "render_segment sr duration outcome =
     (case outcome of
        EngineRaised \<Rightarrow> (False, [(ERROR, ''exception''), (ERROR, ''traceback'')])
      | EngineFinished res \<Rightarrow>
          if returncode res = 0 then
            (if output_exists res then
               (case get_duration (probed_duration res) of
                  (actual_duration, probe_log) \<Rightarrow>
                    let expected_frames = py_int (duration * of_int (sr_fps sr));
                        frame_diff = \<bar>frame_count res - expected_frames\<bar>;
                        duration_diff = \<bar>actual_duration - duration\<bar>
                    in (True,
                        probe_log @
                        (if 10 < frame_diff then
                           [(ERROR, ''FRAME COUNT MISMATCH''),
                            (ERROR, ''This segment is longer or shorter than expected'')]
                         else if 5 / 10 < duration_diff then
                           [(WARNING, ''Duration difference'')]
                         else [])))
             else (False, [(ERROR, ''output file not created'')]))
          else (False, [(ERROR, ''failed with return code'')]))"

text \<open>A renderer at 30 frames per second and the outcome of a run that came out short.\<close>

definition example_renderer :: SegmentRenderer where
  "example_renderer = \<lparr> sr_resolution = (1920, 1080), sr_fps = 30, sr_crf = 18,
                         sr_preset = ''medium'' \<rparr>"

definition short_render :: engine_result where
  "short_render = \<lparr> returncode = 0, frame_count = 120, output_exists = True,
                     probed_duration = Some 4 \<rparr>"

section \<open>Predicates and scenarios of the results\<close>



text \<open>The frame lies in none of the frame ranges.\<close>

definition outside_ranges :: "(int \<times> int) list \<Rightarrow> nat \<Rightarrow> bool" where
  "outside_ranges rs k \<longleftrightarrow> list_all (\<lambda>(s, e). \<not> (s \<le> int k \<and> int k < e)) rs"

text \<open>Every frame written for an index outside the ranges is the transparent one, and no
  particle call was made for such an index.\<close>

definition inactive_clean :: "ParticleOverlayGenerator \<Rightarrow> (int \<times> int) list \<Rightarrow> sim_state \<Rightarrow> bool" where
  "inactive_clean g rs st \<longleftrightarrow>
     (\<forall>k b. (k, b) \<in> set (written st) \<and> outside_ranges rs k \<longrightarrow> b = transparent_bytes g)
     \<and> (\<forall>k c. (k, c) \<in> set (calls st) \<longrightarrow> \<not> outside_ranges rs k)"

text \<open>Every value of the random source lies in \<open>[0, 1)\<close>, as \<open>random.random()\<close> guarantees.\<close>

definition wf_rng :: "rng \<Rightarrow> bool" where
  "wf_rng r \<longleftrightarrow> (\<forall>i. 0 \<le> r i \<and> r i < 1)"

text \<open>Every particle of the pool has a positive \<open>max_life\<close>.\<close>

definition pool_alive :: "Particle list \<Rightarrow> bool" where
  "pool_alive ps \<longleftrightarrow> list_all (\<lambda>p. 0 < p_max_life p) ps"

text \<open>The state of a frame loop in which no call can raise.\<close>

definition sim_ok :: "sim_state \<Rightarrow> bool" where
  "sim_ok st \<longleftrightarrow>
     wf_rng (sim_rng st)
     \<and> (case particles st of None \<Rightarrow> current_window_idx st < 0 | Some ps \<Rightarrow> pool_alive ps)"

text \<open>
  The scenario of the specification: 5 seconds at 30 frames per second, active in the
  first and in the last second; \<open>communicate\<close> raises.
\<close>

definition spec_overlay_run :: "bool \<times> sim_state" where
  "spec_overlay_run =
     generate_overlay_video tiny_generator True count_rasteriser None zero_rng 5
       (Some [(0, 1), (4, 5)])"

text \<open>
  A run of 0.625 seconds at 30 frames per second, without active windows, for a given
  outcome of \<open>communicate\<close>.
\<close>

definition short_overlay_run :: "int option \<Rightarrow> bool \<times> sim_state" where
  "short_overlay_run communicate =
     generate_overlay_video tiny_generator True count_rasteriser communicate zero_rng (5 / 8) None"

text \<open>The selector built from an empty weights dictionary, in simple mode.\<close>

definition simple_selector :: TransitionSelector where
  "simple_selector = TransitionSelector_init [] True False"





section \<open>Timeline synthesis: results\<close>

lemma calculate_timings_accept:
  assumes "\<not> audio_duration c - OPENING_PART1_DURATION c - OPENING_PART2_DURATION c
             - of_int n * IMAGE_DURATION c < MIN_CLOSING_DURATION c"
  shows "\<exists>t logs. calculate_timings c n = Inr (t, c, logs)
           \<and> t_image_duration t = IMAGE_DURATION c
           \<and> t_closing t = audio_duration c - OPENING_PART1_DURATION c
                           - OPENING_PART2_DURATION c - of_int n * IMAGE_DURATION c
           \<and> t_total_video t = audio_duration c
           \<and> (ERROR, ''Cannot fit all segments within audio duration.'') \<notin> set logs"
  using assms by (simp add: calculate_timings_def Let_def log_timing_breakdown_def)

lemma calculate_timings_adjust:
  assumes "audio_duration c - OPENING_PART1_DURATION c - OPENING_PART2_DURATION c
             - of_int n * IMAGE_DURATION c < MIN_CLOSING_DURATION c"
      and "0 < audio_duration c - OPENING_PART1_DURATION c - OPENING_PART2_DURATION c
                 - MIN_CLOSING_DURATION c"
      and "n \<noteq> 0"
  shows "\<exists>t logs. calculate_timings c n =
             Inr (t, c\<lparr>IMAGE_DURATION := (audio_duration c - OPENING_PART1_DURATION c
                        - OPENING_PART2_DURATION c - MIN_CLOSING_DURATION c) / of_int n\<rparr>, logs)
           \<and> t_image_duration t = (audio_duration c - OPENING_PART1_DURATION c
                        - OPENING_PART2_DURATION c - MIN_CLOSING_DURATION c) / of_int n
           \<and> t_closing t = MIN_CLOSING_DURATION c
           \<and> t_total_video t = audio_duration c"
  using assms by (simp add: calculate_timings_def Let_def log_timing_breakdown_def)

lemma calculate_timings_clamp:
  assumes "audio_duration c - OPENING_PART1_DURATION c - OPENING_PART2_DURATION c
             - of_int n * IMAGE_DURATION c < MIN_CLOSING_DURATION c"
      and "\<not> 0 < audio_duration c - OPENING_PART1_DURATION c - OPENING_PART2_DURATION c
                 - MIN_CLOSING_DURATION c"
  shows "\<exists>t logs. calculate_timings c n = Inr (t, c, logs)
           \<and> t_image_duration t = IMAGE_DURATION c
           \<and> t_closing t = MIN_CLOSING_DURATION c
           \<and> t_total_video t = OPENING_PART1_DURATION c + OPENING_PART2_DURATION c
                                + of_int n * IMAGE_DURATION c + MIN_CLOSING_DURATION c
           \<and> audio_duration c < t_total_video t
           \<and> (ERROR, ''Cannot fit all segments within audio duration.'') \<in> set logs"
  using assms by (simp add: calculate_timings_def Let_def log_timing_breakdown_def)

text \<open>
  Claim C1. With at least one image, \<open>calculate_timings\<close> computes the closing duration
  \<open>C = T - a1 - a2 - n * d0\<close>. When \<open>C \<ge> Cmin\<close> it returns the nominal per-image
  duration \<open>d0\<close> with closing \<open>C\<close>. When \<open>C < Cmin\<close> and \<open>T - a1 - a2 - Cmin > 0\<close> it
  returns the per-image duration \<open>(T - a1 - a2 - Cmin) / n\<close> (also stored in the
  calculator) with closing \<open>Cmin\<close>. In both cases \<open>total_video\<close> equals \<open>T\<close>.
\<close>

theorem calculate_timings_total_matches_audio:
  assumes "1 \<le> n"
  shows "(MIN_CLOSING_DURATION c \<le> audio_duration c - OPENING_PART1_DURATION c
             - OPENING_PART2_DURATION c - of_int n * IMAGE_DURATION c \<longrightarrow>
          (\<exists>t c' logs. calculate_timings c n = Inr (t, c', logs)
             \<and> t_image_duration t = IMAGE_DURATION c
             \<and> t_closing t = audio_duration c - OPENING_PART1_DURATION c
                             - OPENING_PART2_DURATION c - of_int n * IMAGE_DURATION c
             \<and> t_total_video t = audio_duration c))
       \<and> (audio_duration c - OPENING_PART1_DURATION c - OPENING_PART2_DURATION c
             - of_int n * IMAGE_DURATION c < MIN_CLOSING_DURATION c
          \<and> 0 < audio_duration c - OPENING_PART1_DURATION c - OPENING_PART2_DURATION c
                 - MIN_CLOSING_DURATION c \<longrightarrow>
          (\<exists>t c' logs. calculate_timings c n = Inr (t, c', logs)
             \<and> t_image_duration t = (audio_duration c - OPENING_PART1_DURATION c
                        - OPENING_PART2_DURATION c - MIN_CLOSING_DURATION c) / of_int n
             \<and> IMAGE_DURATION c' = t_image_duration t
             \<and> t_closing t = MIN_CLOSING_DURATION c
             \<and> t_total_video t = audio_duration c))"
proof (intro conjI impI)
  assume "MIN_CLOSING_DURATION c \<le> audio_duration c - OPENING_PART1_DURATION c
             - OPENING_PART2_DURATION c - of_int n * IMAGE_DURATION c"
  then have "\<not> audio_duration c - OPENING_PART1_DURATION c - OPENING_PART2_DURATION c
             - of_int n * IMAGE_DURATION c < MIN_CLOSING_DURATION c"
    by simp
  from calculate_timings_accept [OF this]
  show "\<exists>t c' logs. calculate_timings c n = Inr (t, c', logs)
             \<and> t_image_duration t = IMAGE_DURATION c
             \<and> t_closing t = audio_duration c - OPENING_PART1_DURATION c
                             - OPENING_PART2_DURATION c - of_int n * IMAGE_DURATION c
             \<and> t_total_video t = audio_duration c"
    by blast
next
  assume a: "audio_duration c - OPENING_PART1_DURATION c - OPENING_PART2_DURATION c
             - of_int n * IMAGE_DURATION c < MIN_CLOSING_DURATION c
          \<and> 0 < audio_duration c - OPENING_PART1_DURATION c - OPENING_PART2_DURATION c
                 - MIN_CLOSING_DURATION c"
  from assms have "n \<noteq> 0"
    by simp
  from calculate_timings_adjust [OF conjunct1 [OF a] conjunct2 [OF a] this]
  show "\<exists>t c' logs. calculate_timings c n = Inr (t, c', logs)
             \<and> t_image_duration t = (audio_duration c - OPENING_PART1_DURATION c
                        - OPENING_PART2_DURATION c - MIN_CLOSING_DURATION c) / of_int n
             \<and> IMAGE_DURATION c' = t_image_duration t
             \<and> t_closing t = MIN_CLOSING_DURATION c
             \<and> t_total_video t = audio_duration c"
    by auto
qed

text \<open>
  The two schedules of the specification: 60 seconds of audio keep 6 seconds per image
  and close in 9 seconds; 40 seconds of audio give 23/7 seconds per image and close in 8.
\<close>

theorem calculate_timings_total_matches_audio_witness:
  "(1::int) \<le> 7
   \<and> (\<exists>t c' logs. calculate_timings (TimingCalculator_init 60 Map.empty) 7 = Inr (t, c', logs)
        \<and> t_image_duration t = 6 \<and> t_closing t = 9 \<and> t_total_video t = 60)
   \<and> (\<exists>t c' logs. calculate_timings (TimingCalculator_init 40 Map.empty) 7 = Inr (t, c', logs)
        \<and> t_image_duration t = 23 / 7 \<and> t_closing t = 8 \<and> t_total_video t = 40)"
proof -
  have a: "\<exists>t c' logs. calculate_timings (TimingCalculator_init 60 Map.empty) 7 = Inr (t, c', logs)
        \<and> t_image_duration t = 6 \<and> t_closing t = 9 \<and> t_total_video t = 60"
    using calculate_timings_total_matches_audio [of 7 "TimingCalculator_init 60 Map.empty"]
    by (simp add: TimingCalculator_init_def dict_get_def)
  have b: "\<exists>t c' logs. calculate_timings (TimingCalculator_init 40 Map.empty) 7 = Inr (t, c', logs)
        \<and> t_image_duration t = 23 / 7 \<and> t_closing t = 8 \<and> t_total_video t = 40"
    using calculate_timings_total_matches_audio [of 7 "TimingCalculator_init 40 Map.empty"]
    by (simp add: TimingCalculator_init_def dict_get_def) blast
  from a b show ?thesis
    by simp
qed

text \<open>
  Claim C2, as stated, fails: with 10 seconds of audio, the default durations and 7 images,
  \<open>T - a1 - a2 - Cmin = -7\<close>, and \<open>calculate_timings\<close> returns normally. It logs an error,
  keeps 6 seconds per image, sets the closing duration to the minimum and reports a total
  of 59 seconds.
\<close>

theorem calculate_timings_infeasible_counterexample:
  "audio_duration short_audio_example - OPENING_PART1_DURATION short_audio_example
     - OPENING_PART2_DURATION short_audio_example - MIN_CLOSING_DURATION short_audio_example \<le> 0
   \<and> calculate_timings short_audio_example 7 =
       Inr (\<lparr> t_opening_part1 = 3, t_opening_part2 = 6, t_image_duration = 6,
               t_regular_images_total = 42, t_closing = 8, t_total_video = 59,
               t_num_images = 7 \<rparr>,
            short_audio_example,
            [(WARNING, ''Calculated closing duration is less than minimum''),
             (ERROR, ''Cannot fit all segments within audio duration.''),
             (INFO, ''TIMING BREAKDOWN:''),
             (WARNING, ''Video differs from audio'')])
   \<and> (59::real) \<noteq> audio_duration short_audio_example"
  by (simp add: calculate_timings_def short_audio_example_def Let_def log_timing_breakdown_def)

text \<open>
  Claim C2, amended. When the closing duration computed from the nominal per-image
  duration is below the minimum and \<open>T - a1 - a2 - Cmin \<le> 0\<close>, \<open>calculate_timings\<close> logs
  an error and still returns a schedule: the per-image duration and the calculator are
  unchanged, the closing duration is \<open>Cmin\<close>, and \<open>total_video\<close> is
  \<open>a1 + a2 + n * d0 + Cmin\<close>, which is greater than \<open>T\<close>.
\<close>

theorem calculate_timings_infeasible_clamps:
  assumes "audio_duration c - OPENING_PART1_DURATION c - OPENING_PART2_DURATION c
             - of_int n * IMAGE_DURATION c < MIN_CLOSING_DURATION c"
      and "audio_duration c - OPENING_PART1_DURATION c - OPENING_PART2_DURATION c
             - MIN_CLOSING_DURATION c \<le> 0"
  shows "\<exists>t logs. calculate_timings c n = Inr (t, c, logs)
           \<and> t_image_duration t = IMAGE_DURATION c
           \<and> t_closing t = MIN_CLOSING_DURATION c
           \<and> t_total_video t = OPENING_PART1_DURATION c + OPENING_PART2_DURATION c
                                + of_int n * IMAGE_DURATION c + MIN_CLOSING_DURATION c
           \<and> audio_duration c < t_total_video t
           \<and> (ERROR, ''Cannot fit all segments within audio duration.'') \<in> set logs"
proof -
  from assms(2)
  have "\<not> 0 < audio_duration c - OPENING_PART1_DURATION c - OPENING_PART2_DURATION c
                 - MIN_CLOSING_DURATION c"
    by simp
  from calculate_timings_clamp [OF assms(1) this] show ?thesis .
qed

theorem calculate_timings_infeasible_clamps_witness:
  "\<exists>t logs. calculate_timings short_audio_example 7 = Inr (t, short_audio_example, logs)
     \<and> t_image_duration t = 6 \<and> t_closing t = 8 \<and> t_total_video t = 59
     \<and> (10::real) < t_total_video t
     \<and> (ERROR, ''Cannot fit all segments within audio duration.'') \<in> set logs"
  using calculate_timings_infeasible_clamps [of short_audio_example 7]
  by (simp add: short_audio_example_def)

text \<open>
  Claim C4. With zero regular images \<open>calculate_timings\<close> never raises
  \<open>ZeroDivisionError\<close>, whatever the audio duration and the configuration: it returns a
  schedule. The division by the image count sits behind the test \<open>available_time > 0\<close>,
  which is false whenever the count is zero and the closing duration is below the minimum.
\<close>

theorem calculate_timings_zero_images_no_division:
  "calculate_timings c 0 \<noteq> Inl ZeroDivisionError \<and> (\<exists>r. calculate_timings c 0 = Inr r)"
  by (simp add: calculate_timings_def Let_def)

section \<open>Transition selection: results\<close>

lemma random_choice_mem:
  "random_choice xs r = Inr (x, r') \<Longrightarrow> x \<in> set xs"
  by (auto simp: random_choice_def min_less_iff_disj split: if_splits prod.splits intro!: nth_mem)

lemma bisect_pick_mem: "bisect_pick x ys cs v \<in> set (x # ys)"
  by (induction x ys cs v rule: bisect_pick.induct) auto

lemma random_choices1_mem:
  assumes "random_choices1 p w r = Inr (x, r')"
  shows "x \<in> set p"
proof -
  from assms have ne: "p \<noteq> []"
    by (auto simp: random_choices1_def split: if_splits)
  from assms obtain v where "x = bisect_pick (hd p) (tl p) (cumulative 0 w) v"
    by (auto simp: random_choices1_def split: if_splits prod.splits)
  with bisect_pick_mem [of "hd p" "tl p" "cumulative 0 w" v] ne show ?thesis
    by simp
qed

lemma length_3_conv: "length xs = 3 \<Longrightarrow> \<exists>a b c. xs = [a, b, c]"
  by (auto simp: numeral_3_eq_3 length_Suc_conv)

lemma last_n_3:
  assumes "3 \<le> length h"
  shows "last_n 3 h = [h ! (length h - 3), h ! (length h - 2), h ! (length h - 1)]"
proof -
  have "length (drop (length h - 3) h) = 3"
    using assms by simp
  then obtain a b c where d: "drop (length h - 3) h = [a, b, c]"
    using length_3_conv by blast
  have h: "h = take (length h - 3) h @ [a, b, c]"
    using d append_take_drop_id [of "length h - 3" h] by simp
  have lt: "length (take (length h - 3) h) = length h - 3"
    by simp
  have "h ! (length h - 3) = a"
    using nth_append_length [of "take (length h - 3) h" a "[b, c]"] h lt by metis
  moreover have "h ! (length h - 2) = b"
  proof -
    have "(take (length h - 3) h @ [a, b, c]) ! (length h - 3 + 1) = b"
      by (simp add: nth_append)
    moreover have "length h - 3 + 1 = length h - 2" using assms by simp
    ultimately show ?thesis using h by metis
  qed
  moreover have "h ! (length h - 1) = c"
  proof -
    have "(take (length h - 3) h @ [a, b, c]) ! (length h - 3 + 2) = c"
      by (simp add: nth_append)
    moreover have "length h - 3 + 2 = length h - 1" using assms by simp
    ultimately show ?thesis using h by metis
  qed
  ultimately show ?thesis
    using d by (simp add: last_n_def)
qed

lemma remdups3: "length (remdups [a, b, c]) = 1 \<longleftrightarrow> a = b \<and> b = c"
  by auto

lemma select_category_forced:
  assumes len: "3 \<le> length (category_history s)"
      and same: "category_history s ! (length (category_history s) - 3) = category_history s ! (length (category_history s) - 2)"
                "category_history s ! (length (category_history s) - 2) = category_history s ! (length (category_history s) - 1)"
      and sel: "select_category s r = Inr (c, r')"
  shows "c \<noteq> category_history s ! (length (category_history s) - 1)"
    and "two_categories_weighted s \<Longrightarrow> category_weights s c \<noteq> None"
proof -
  let ?h = "category_history s"
  let ?cur = "?h ! (length ?h - 3)"
  let ?av = "filter (\<lambda>cat. cat \<noteq> ?cur \<and> category_weights s cat \<noteq> None) all_categories"
  let ?oth = "filter (\<lambda>cat. cat \<noteq> ?cur) all_categories"
  have l3: "last_n 3 ?h = [?cur, ?cur, ?cur]"
    using last_n_3 [OF len] same by simp
  have oth_ne: "?oth \<noteq> []"
    by (cases ?cur) (simp_all add: all_categories_def)
  have "select_category s r =
          (if ?av = [] \<or> weights_of s ?av = [] \<or> sum_list (weights_of s ?av) = 0
           then random_choice ?oth r else random_choices1 ?av (weights_of s ?av) r)"
    by (simp add: select_category_def Let_def len l3 oth_ne del: not_None_eq)
  with sel have sel': "(if ?av = [] \<or> weights_of s ?av = [] \<or> sum_list (weights_of s ?av) = 0
               then random_choice ?oth r else random_choices1 ?av (weights_of s ?av) r) = Inr (c, r')"
    by simp
  show "c \<noteq> ?h ! (length ?h - 1)"
  proof (cases "?av = [] \<or> weights_of s ?av = [] \<or> sum_list (weights_of s ?av) = 0")
    case True
    from sel' have "random_choice ?oth r = Inr (c, r')"
      unfolding if_P [OF True] .
    then have "c \<in> set ?oth" by (rule random_choice_mem)
    with same show ?thesis by simp
  next
    case False
    from sel' have "random_choices1 ?av (weights_of s ?av) r = Inr (c, r')"
      unfolding if_not_P [OF False] .
    then have "c \<in> set ?av" by (rule random_choices1_mem)
    with same show ?thesis by simp
  qed
  show "category_weights s c \<noteq> None" if tw: "two_categories_weighted s"
  proof (cases "?av = [] \<or> weights_of s ?av = [] \<or> sum_list (weights_of s ?av) = 0")
    case False
    from sel' have "random_choices1 ?av (weights_of s ?av) r = Inr (c, r')"
      unfolding if_not_P [OF False] .
    then have "c \<in> set ?av" by (rule random_choices1_mem)
    then show ?thesis by simp
  next
    case True
    from sel' have "random_choice ?oth r = Inr (c, r')"
      unfolding if_P [OF True] .
    then have c: "c \<in> set ?oth" by (rule random_choice_mem)
    show ?thesis
    proof (rule ccontr)
      assume "\<not> category_weights s c \<noteq> None"
      then have n: "category_weights s c = None" by simp
      from c have neq: "c \<noteq> ?cur" by simp
      show False
        using True n neq tw unfolding two_categories_weighted_def weights_of_def all_categories_def
        by (cases ?cur; cases c) (auto split: option.splits if_splits)
    qed
  qed
qed

lemma switch_inv_snoc:
  assumes inv: "switch_inv P h"
      and new: "3 \<le> length h \<Longrightarrow> h ! (length h - 3) = h ! (length h - 2) \<Longrightarrow>
                h ! (length h - 2) = h ! (length h - 1) \<Longrightarrow> c \<noteq> h ! (length h - 1) \<and> P c"
  shows "switch_inv P (h @ [c])"
  unfolding switch_inv_def
proof (intro allI impI)
  fix i
  assume a: "i + 3 < length (h @ [c]) \<and> (h @ [c]) ! i = (h @ [c]) ! (i + 1)
             \<and> (h @ [c]) ! (i + 1) = (h @ [c]) ! (i + 2)"
  show "(h @ [c]) ! (i + 3) \<noteq> (h @ [c]) ! (i + 2) \<and> P ((h @ [c]) ! (i + 3))"
  proof (cases "i + 3 < length h")
    case True
    with a have "h ! i = h ! (i + 1) \<and> h ! (i + 1) = h ! (i + 2)"
      by (simp add: nth_append)
    with inv True have "h ! (i + 3) \<noteq> h ! (i + 2) \<and> P (h ! (i + 3))"
      unfolding switch_inv_def by blast
    with True show ?thesis
      by (simp add: nth_append)
  next
    case False
    with a have len: "length h = i + 3"
      by simp
    with a have eq: "h ! i = h ! (i + 1)" "h ! (i + 1) = h ! (i + 2)"
      by (simp_all add: nth_append)
    have "c \<noteq> h ! (length h - 1) \<and> P c"
      using new eq len by simp
    with len show ?thesis
      by (simp add: nth_append)
  qed
qed

lemma select_next_Inr:
  assumes "select_next s r = Inr (t, s', r')"
  shows "\<exists>c r1. select_category s r = Inr (c, r1)
           \<and> s' = s\<lparr>history := history s @ [tr_name t],
                     category_history := category_history s @ [c]\<rparr>
           \<and> random_choice (if filtered_pool s (category_pool s c) = [] then category_pool s c
                             else filtered_pool s (category_pool s c)) r1 = Inr (t, r')"
  using assms unfolding select_next_def Let_def
  by (auto split: sum.splits prod.splits)

lemma select_next_switch_inv:
  assumes sel: "select_next s r = Inr (t, s', r')"
      and inv: "switch_inv (\<lambda>c. tw \<longrightarrow> category_weights s c \<noteq> None) (category_history s)"
      and tw: "tw \<longrightarrow> two_categories_weighted s"
  shows "switch_inv (\<lambda>c. tw \<longrightarrow> category_weights s c \<noteq> None) (category_history s')"
    and "category_weights s' = category_weights s"
    and "length (category_history s') = Suc (length (category_history s))"
    and "transitions s' = transitions s"
proof -
  from select_next_Inr [OF sel] obtain c r1 where
    c: "select_category s r = Inr (c, r1)" and
    s': "s' = s\<lparr>history := history s @ [tr_name t], category_history := category_history s @ [c]\<rparr>"
    by blast
  show "category_weights s' = category_weights s" "transitions s' = transitions s"
       "length (category_history s') = Suc (length (category_history s))"
    using s' by simp_all
  have "switch_inv (\<lambda>c. tw \<longrightarrow> category_weights s c \<noteq> None) (category_history s @ [c])"
  proof (rule switch_inv_snoc [OF inv])
    assume "3 \<le> length (category_history s)"
       and "category_history s ! (length (category_history s) - 3) = category_history s ! (length (category_history s) - 2)"
       and "category_history s ! (length (category_history s) - 2) = category_history s ! (length (category_history s) - 1)"
    from select_category_forced [OF this c] tw
    show "c \<noteq> category_history s ! (length (category_history s) - 1) \<and> (tw \<longrightarrow> category_weights s c \<noteq> None)"
      by blast
  qed
  then show "switch_inv (\<lambda>c. tw \<longrightarrow> category_weights s c \<noteq> None) (category_history s')"
    using s' by simp
qed

lemma two_categories_weighted_cong:
  "category_weights s' = category_weights s \<Longrightarrow> two_categories_weighted s' = two_categories_weighted s"
  by (simp add: two_categories_weighted_def)

lemma select_many_switch_inv:
  assumes "select_many n s r = Inr (ts, s', r')"
      and "switch_inv (\<lambda>c. tw \<longrightarrow> category_weights s c \<noteq> None) (category_history s)"
      and "tw \<longrightarrow> two_categories_weighted s"
  shows "switch_inv (\<lambda>c. tw \<longrightarrow> category_weights s c \<noteq> None) (category_history s')
         \<and> length (category_history s') = length (category_history s) + n"
  using assms
proof (induction n arbitrary: s r ts)
  case 0
  then show ?case by simp
next
  case (Suc n)
  from Suc.prems(1) obtain t s1 r1 ts1 where
    st: "select_next s r = Inr (t, s1, r1)" and
    rest: "select_many n s1 r1 = Inr (ts1, s', r')"
    by (auto split: sum.splits)
  note step = select_next_switch_inv [OF st Suc.prems(2) Suc.prems(3)]
  have w: "category_weights s1 = category_weights s" by (rule step(2))
  have "switch_inv (\<lambda>c. tw \<longrightarrow> category_weights s1 c \<noteq> None) (category_history s1)"
    using step(1) w by simp
  moreover have "tw \<longrightarrow> two_categories_weighted s1"
    using Suc.prems(3) two_categories_weighted_cong [OF w] by simp
  ultimately have "switch_inv (\<lambda>c. tw \<longrightarrow> category_weights s1 c \<noteq> None) (category_history s')
         \<and> length (category_history s') = length (category_history s1) + n"
    using Suc.IH [OF rest] by blast
  with w step(3) show ?case by simp
qed

lemma random_random_zero: "random_random zero_rng = (0, zero_rng)"
  by (simp add: random_random_def zero_rng_def)

lemma default_category_weights_simps:
  "default_category_weights GENTLE = Some (70 / 100)"
  "default_category_weights DYNAMIC = Some (20 / 100)"
  "default_category_weights ARTISTIC = Some (10 / 100)"
  by (simp_all add: default_category_weights_def)

lemma full_pool_categories:
  assumes "transitions s = GENTLE_TRANSITIONS @ DYNAMIC_TRANSITIONS @ ARTISTIC_TRANSITIONS"
  shows "category_pool s GENTLE = GENTLE_TRANSITIONS"
    and "category_pool s DYNAMIC = DYNAMIC_TRANSITIONS"
    and "category_pool s ARTISTIC = ARTISTIC_TRANSITIONS"
  by (simp_all add: category_pool_def assms GENTLE_TRANSITIONS_def DYNAMIC_TRANSITIONS_def
        ARTISTIC_TRANSITIONS_def mk_transition_def)

lemma default_selector_fields:
  "history default_selector = []"
  "category_history default_selector = []"
  "category_weights default_selector = default_category_weights"
  "transitions default_selector = GENTLE_TRANSITIONS @ DYNAMIC_TRANSITIONS @ ARTISTIC_TRANSITIONS"
  by (simp_all add: default_selector_def TransitionSelector_init_def all_categories_def)

lemma default_selector_pools:
  "category_pool (default_selector\<lparr>history := h, category_history := ch\<rparr>) GENTLE = GENTLE_TRANSITIONS"
  "category_pool (default_selector\<lparr>history := h, category_history := ch\<rparr>) DYNAMIC = DYNAMIC_TRANSITIONS"
  "category_pool default_selector GENTLE = GENTLE_TRANSITIONS"
  by (simp_all add: full_pool_categories default_selector_fields)

text \<open>The category drawn in a given history, with the default weights and the zero source.\<close>

lemma select_category_default:
  "select_category default_selector zero_rng = Inr (GENTLE, zero_rng)"
  "select_category (default_selector\<lparr>history := h1, category_history := [GENTLE]\<rparr>) zero_rng = Inr (GENTLE, zero_rng)"
  "select_category (default_selector\<lparr>history := h2, category_history := [GENTLE, GENTLE]\<rparr>) zero_rng = Inr (GENTLE, zero_rng)"
  "select_category (default_selector\<lparr>history := h3, category_history := [GENTLE, GENTLE, GENTLE]\<rparr>) zero_rng = Inr (DYNAMIC, zero_rng)"
  by (simp_all add: select_category_def default_selector_fields random_random_zero
        random_choice_def random_choices1_def Let_def all_categories_def last_n_def weights_of_def
        default_category_weights_simps del: not_None_eq)

lemmas select_eval = select_next_def select_category_default default_selector_pools
     random_random_zero random_choice_def Let_def last_n_def filtered_pool_def
     default_selector_fields

lemma run_step1:
  "select_next default_selector zero_rng =
     Inr (mk_transition ''circlecrop'' GENTLE ''Soft circular crop reveal'',
          default_selector\<lparr>history := [''circlecrop''], category_history := [GENTLE]\<rparr>, zero_rng)"
  by (simp add: select_eval GENTLE_TRANSITIONS_def mk_transition_def)

lemma run_step2:
  "select_next (default_selector\<lparr>history := [''circlecrop''], category_history := [GENTLE]\<rparr>) zero_rng =
     Inr (mk_transition ''circleclose'' GENTLE ''Circular close transition'',
          default_selector\<lparr>history := [''circlecrop'', ''circleclose''],
                            category_history := [GENTLE, GENTLE]\<rparr>, zero_rng)"
  by (simp add: select_eval GENTLE_TRANSITIONS_def mk_transition_def)

lemma run_step3:
  "select_next (default_selector\<lparr>history := [''circlecrop'', ''circleclose''],
                            category_history := [GENTLE, GENTLE]\<rparr>) zero_rng =
     Inr (mk_transition ''circleopen'' GENTLE ''Circular open transition'',
          default_selector\<lparr>history := [''circlecrop'', ''circleclose'', ''circleopen''],
                            category_history := [GENTLE, GENTLE, GENTLE]\<rparr>, zero_rng)"
  by (simp add: select_eval GENTLE_TRANSITIONS_def mk_transition_def)

lemma run_step4:
  "select_next (default_selector\<lparr>history := [''circlecrop'', ''circleclose'', ''circleopen''],
                            category_history := [GENTLE, GENTLE, GENTLE]\<rparr>) zero_rng =
     Inr (mk_transition ''smoothleft'' DYNAMIC ''Smooth left slide'',
          default_selector\<lparr>history := [''circlecrop'', ''circleclose'', ''circleopen'', ''smoothleft''],
                            category_history := [GENTLE, GENTLE, GENTLE, DYNAMIC]\<rparr>, zero_rng)"
  by (simp add: select_eval DYNAMIC_TRANSITIONS_def mk_transition_def)

lemma run4:
  "select_many 4 default_selector zero_rng =
     Inr ([mk_transition ''circlecrop'' GENTLE ''Soft circular crop reveal'',
           mk_transition ''circleclose'' GENTLE ''Circular close transition'',
           mk_transition ''circleopen'' GENTLE ''Circular open transition'',
           mk_transition ''smoothleft'' DYNAMIC ''Smooth left slide''],
          default_selector\<lparr>history := [''circlecrop'', ''circleclose'', ''circleopen'', ''smoothleft''],
                            category_history := [GENTLE, GENTLE, GENTLE, DYNAMIC]\<rparr>, zero_rng)"
  by (simp add: eval_nat_numeral run_step1 run_step2 run_step3 run_step4)

lemma pool_category:
  assumes "transitions s = GENTLE_TRANSITIONS @ DYNAMIC_TRANSITIONS @ ARTISTIC_TRANSITIONS"
      and "t \<in> set (category_pool s c)"
  shows "tr_category t = c"
proof -
  have "category_pool s c = filter (\<lambda>t. tr_category t = c) (transitions s)"
    using full_pool_categories [OF assms(1)]
    by (cases c) (simp_all add: assms(1) GENTLE_TRANSITIONS_def DYNAMIC_TRANSITIONS_def
        ARTISTIC_TRANSITIONS_def mk_transition_def)
  with assms(2) show ?thesis by simp
qed

lemma select_next_member:
  assumes "select_next s r = Inr (t, s', r')"
  shows "\<exists>c. category_history s' = category_history s @ [c] \<and> t \<in> set (category_pool s c)
             \<and> (filtered_pool s (category_pool s c) \<noteq> [] \<longrightarrow> t \<in> set (filtered_pool s (category_pool s c)))"
proof -
  from select_next_Inr [OF assms] obtain c r1 where
    s': "s' = s\<lparr>history := history s @ [tr_name t], category_history := category_history s @ [c]\<rparr>"
    and ch: "random_choice (if filtered_pool s (category_pool s c) = [] then category_pool s c
                             else filtered_pool s (category_pool s c)) r1 = Inr (t, r')"
    by blast
  from random_choice_mem [OF ch]
  have m: "t \<in> set (if filtered_pool s (category_pool s c) = [] then category_pool s c
                             else filtered_pool s (category_pool s c))" .
  have "t \<in> set (category_pool s c)"
    using m by (auto simp: filtered_pool_def split: if_splits)
  moreover have "filtered_pool s (category_pool s c) \<noteq> [] \<longrightarrow> t \<in> set (filtered_pool s (category_pool s c))"
    using m by (auto split: if_splits)
  ultimately show ?thesis using s' by simp
qed

lemma select_many_categories:
  assumes "select_many n s r = Inr (ts, s', r')"
      and "transitions s = GENTLE_TRANSITIONS @ DYNAMIC_TRANSITIONS @ ARTISTIC_TRANSITIONS"
  shows "category_history s' = category_history s @ map tr_category ts"
  using assms
proof (induction n arbitrary: s r ts)
  case 0
  then show ?case by simp
next
  case (Suc n)
  from Suc.prems(1) obtain t s1 r1 ts1 where
    st: "select_next s r = Inr (t, s1, r1)" and
    rest: "select_many n s1 r1 = Inr (ts1, s', r')" and
    ts: "ts = t # ts1"
    by (auto split: sum.splits)
  from select_next_member [OF st] obtain c where
    c: "category_history s1 = category_history s @ [c]" "t \<in> set (category_pool s c)"
    by blast
  have tc: "tr_category t = c"
    using pool_category [OF Suc.prems(2) c(2)] .
  have "transitions s1 = transitions s"
    using select_next_Inr [OF st] by auto
  with Suc.prems(2) have "transitions s1 = GENTLE_TRANSITIONS @ DYNAMIC_TRANSITIONS @ ARTISTIC_TRANSITIONS"
    by simp
  from Suc.IH [OF rest this] c(1) tc ts show ?case by simp
qed

lemma category_pool_subset: "set (category_pool s c) \<subseteq> set (transitions s)"
  by (auto simp: category_pool_def Let_def)

lemma select_many_from_pool:
  "select_many n s r = Inr (ts, s', r') \<Longrightarrow> set ts \<subseteq> set (transitions s)"
proof (induction n arbitrary: s r ts)
  case 0
  then show ?case by simp
next
  case (Suc n)
  from Suc.prems obtain t s1 r1 ts1 where
    st: "select_next s r = Inr (t, s1, r1)" and
    rest: "select_many n s1 r1 = Inr (ts1, s', r')" and
    ts: "ts = t # ts1"
    by (auto split: sum.splits)
  from select_next_member [OF st] obtain c where "t \<in> set (category_pool s c)"
    by blast
  with category_pool_subset have t: "t \<in> set (transitions s)"
    by blast
  have "transitions s1 = transitions s"
    using select_next_Inr [OF st] by auto
  with Suc.IH [OF rest] have "set ts1 \<subseteq> set (transitions s)"
    by simp
  with t ts show ?case by simp
qed

lemma simple_pool_gentle:
  "t \<in> set (take 6 GENTLE_TRANSITIONS) \<Longrightarrow> tr_category t = GENTLE"
  by (auto simp: GENTLE_TRANSITIONS_def mk_transition_def)

lemma select_many_simple_gentle:
  assumes "select_many n (TransitionSelector_init weights True anniversary) r = Inr (ts, s, r')"
  shows "list_all (\<lambda>t. tr_category t = GENTLE) ts"
proof -
  have "transitions (TransitionSelector_init weights True anniversary) = take 6 GENTLE_TRANSITIONS"
    by (simp add: TransitionSelector_init_def Let_def)
  with select_many_from_pool [OF assms] have "set ts \<subseteq> set (take 6 GENTLE_TRANSITIONS)"
    by simp
  with simple_pool_gentle show ?thesis
    unfolding list_all_iff by blast
qed

lemma simple_selector_fields:
  "history simple_selector = []"
  "category_history simple_selector = []"
  "category_weights simple_selector = default_category_weights"
  "transitions simple_selector = take 6 GENTLE_TRANSITIONS"
  by (simp_all add: simple_selector_def TransitionSelector_init_def all_categories_def)

lemma simple_selector_pools:
  "category_pool (simple_selector\<lparr>history := h, category_history := ch\<rparr>) GENTLE
     = take 6 GENTLE_TRANSITIONS"
  "category_pool (simple_selector\<lparr>history := h, category_history := ch\<rparr>) DYNAMIC
     = take 6 GENTLE_TRANSITIONS"
  "category_pool simple_selector GENTLE = take 6 GENTLE_TRANSITIONS"
  by (simp_all add: category_pool_def simple_selector_fields GENTLE_TRANSITIONS_def
        mk_transition_def)

lemma select_category_simple:
  "select_category simple_selector zero_rng = Inr (GENTLE, zero_rng)"
  "select_category (simple_selector\<lparr>history := h1, category_history := [GENTLE]\<rparr>) zero_rng
     = Inr (GENTLE, zero_rng)"
  "select_category (simple_selector\<lparr>history := h2, category_history := [GENTLE, GENTLE]\<rparr>) zero_rng
     = Inr (GENTLE, zero_rng)"
  "select_category (simple_selector\<lparr>history := h3, category_history := [GENTLE, GENTLE, GENTLE]\<rparr>)
     zero_rng = Inr (DYNAMIC, zero_rng)"
  by (simp_all add: select_category_def simple_selector_fields random_random_zero
        random_choice_def random_choices1_def Let_def all_categories_def last_n_def weights_of_def
        default_category_weights_simps del: not_None_eq)

lemmas simple_eval = select_next_def select_category_simple simple_selector_pools
     random_random_zero random_choice_def Let_def last_n_def filtered_pool_def
     simple_selector_fields GENTLE_TRANSITIONS_def mk_transition_def

lemma simple_step1:
  "select_next simple_selector zero_rng =
     Inr (mk_transition ''circlecrop'' GENTLE ''Soft circular crop reveal'',
          simple_selector\<lparr>history := [''circlecrop''], category_history := [GENTLE]\<rparr>, zero_rng)"
  by (simp add: simple_eval)

lemma simple_step2:
  "select_next (simple_selector\<lparr>history := [''circlecrop''], category_history := [GENTLE]\<rparr>) zero_rng =
     Inr (mk_transition ''circleclose'' GENTLE ''Circular close transition'',
          simple_selector\<lparr>history := [''circlecrop'', ''circleclose''],
                           category_history := [GENTLE, GENTLE]\<rparr>, zero_rng)"
  by (simp add: simple_eval)

lemma simple_step3:
  "select_next (simple_selector\<lparr>history := [''circlecrop'', ''circleclose''],
                           category_history := [GENTLE, GENTLE]\<rparr>) zero_rng =
     Inr (mk_transition ''circleopen'' GENTLE ''Circular open transition'',
          simple_selector\<lparr>history := [''circlecrop'', ''circleclose'', ''circleopen''],
                           category_history := [GENTLE, GENTLE, GENTLE]\<rparr>, zero_rng)"
  by (simp add: simple_eval)

lemma simple_step4:
  "select_next (simple_selector\<lparr>history := [''circlecrop'', ''circleclose'', ''circleopen''],
                           category_history := [GENTLE, GENTLE, GENTLE]\<rparr>) zero_rng =
     Inr (mk_transition ''circlecrop'' GENTLE ''Soft circular crop reveal'',
          simple_selector\<lparr>history := [''circlecrop'', ''circleclose'', ''circleopen'', ''circlecrop''],
                           category_history := [GENTLE, GENTLE, GENTLE, DYNAMIC]\<rparr>, zero_rng)"
  by (simp add: simple_eval)

text \<open>
  Claim C5, as stated, fails for the transitions that \<open>select_next\<close> returns in simple
  mode: with the default weights and a random source that always returns 0, four calls
  return four gentle transitions. The fourth draw is forced to the dynamic category, which
  has no transition in the simple pool, so the choice falls back to the whole pool.
\<close>

theorem select_next_simple_mode_counterexample:
  "two_categories_weighted simple_selector
   \<and> select_many 4 simple_selector zero_rng =
       Inr ([mk_transition ''circlecrop'' GENTLE ''Soft circular crop reveal'',
             mk_transition ''circleclose'' GENTLE ''Circular close transition'',
             mk_transition ''circleopen'' GENTLE ''Circular open transition'',
             mk_transition ''circlecrop'' GENTLE ''Soft circular crop reveal''],
            simple_selector\<lparr>history := [''circlecrop'', ''circleclose'', ''circleopen'', ''circlecrop''],
                             category_history := [GENTLE, GENTLE, GENTLE, DYNAMIC]\<rparr>,
            zero_rng)
   \<and> map tr_category
         [mk_transition ''circlecrop'' GENTLE ''Soft circular crop reveal'',
          mk_transition ''circleclose'' GENTLE ''Circular close transition'',
          mk_transition ''circleopen'' GENTLE ''Circular open transition'',
          mk_transition ''circlecrop'' GENTLE ''Soft circular crop reveal'']
       = [GENTLE, GENTLE, GENTLE, GENTLE]"
proof -
  have tw: "two_categories_weighted simple_selector"
    by (simp add: two_categories_weighted_def simple_selector_fields all_categories_def
          default_category_weights_simps)
  have run: "select_many 4 simple_selector zero_rng =
       Inr ([mk_transition ''circlecrop'' GENTLE ''Soft circular crop reveal'',
             mk_transition ''circleclose'' GENTLE ''Circular close transition'',
             mk_transition ''circleopen'' GENTLE ''Circular open transition'',
             mk_transition ''circlecrop'' GENTLE ''Soft circular crop reveal''],
            simple_selector\<lparr>history := [''circlecrop'', ''circleclose'', ''circleopen'', ''circlecrop''],
                             category_history := [GENTLE, GENTLE, GENTLE, DYNAMIC]\<rparr>,
            zero_rng)"
    by (simp add: eval_nat_numeral simple_step1 simple_step2 simple_step3 simple_step4)
  from tw run show ?thesis
    by (simp add: mk_transition_def)
qed

text \<open>
  Claim C5, amended. In every sequence of calls of \<open>select_next\<close> on a freshly
  constructed selector, the categories drawn (the entries of \<open>category_history\<close>) never
  show the same category four times in a row. When at least two categories carry a
  non-zero weight, the category drawn after three equal ones is another configured
  category. In normal mode the categories of the returned transitions are exactly the
  drawn ones; in simple mode every returned transition is gentle.
\<close>

theorem select_next_forces_category_switch:
  assumes run: "select_many n (TransitionSelector_init weights simple anniversary) r = Inr (ts, s, r')"
  shows "length (category_history s) = n
       \<and> (\<forall>i. i + 3 < n \<longrightarrow>
             \<not> (category_history s ! i = category_history s ! (i + 1)
                \<and> category_history s ! (i + 1) = category_history s ! (i + 2)
                \<and> category_history s ! (i + 2) = category_history s ! (i + 3)))
       \<and> (two_categories_weighted (TransitionSelector_init weights simple anniversary) \<longrightarrow>
            (\<forall>i. i + 3 < n \<and> category_history s ! i = category_history s ! (i + 1)
                  \<and> category_history s ! (i + 1) = category_history s ! (i + 2) \<longrightarrow>
                category_history s ! (i + 3) \<noteq> category_history s ! (i + 2)
                \<and> category_weights (TransitionSelector_init weights simple anniversary)
                     (category_history s ! (i + 3)) \<noteq> None))
       \<and> (\<not> simple \<longrightarrow> map tr_category ts = category_history s)
       \<and> (simple \<longrightarrow> list_all (\<lambda>t. tr_category t = GENTLE) ts)"
proof -
  let ?s0 = "TransitionSelector_init weights simple anniversary"
  let ?P = "\<lambda>c. two_categories_weighted ?s0 \<longrightarrow> category_weights ?s0 c \<noteq> None"
  have h0: "category_history ?s0 = []"
    by (simp add: TransitionSelector_init_def Let_def)
  then have "switch_inv ?P (category_history ?s0)"
    by (simp add: switch_inv_def)
  from select_many_switch_inv [OF run this]
  have inv: "switch_inv ?P (category_history s)" and len: "length (category_history s) = n"
    using h0 by simp_all
  have a: "\<forall>i. i + 3 < n \<longrightarrow>
             \<not> (category_history s ! i = category_history s ! (i + 1)
                \<and> category_history s ! (i + 1) = category_history s ! (i + 2)
                \<and> category_history s ! (i + 2) = category_history s ! (i + 3))"
    using inv len unfolding switch_inv_def by metis
  have b: "two_categories_weighted ?s0 \<longrightarrow>
            (\<forall>i. i + 3 < n \<and> category_history s ! i = category_history s ! (i + 1)
                  \<and> category_history s ! (i + 1) = category_history s ! (i + 2) \<longrightarrow>
                category_history s ! (i + 3) \<noteq> category_history s ! (i + 2)
                \<and> category_weights ?s0 (category_history s ! (i + 3)) \<noteq> None)"
    using inv len unfolding switch_inv_def by blast
  have c: "\<not> simple \<longrightarrow> map tr_category ts = category_history s"
  proof
    assume "\<not> simple"
    then have "transitions ?s0 = GENTLE_TRANSITIONS @ DYNAMIC_TRANSITIONS @ ARTISTIC_TRANSITIONS"
      by (simp add: TransitionSelector_init_def Let_def)
    from select_many_categories [OF run this] h0 show "map tr_category ts = category_history s"
      by simp
  qed
  have d: "simple \<longrightarrow> list_all (\<lambda>t. tr_category t = GENTLE) ts"
  proof
    assume simple
    with run have "select_many n (TransitionSelector_init weights True anniversary) r = Inr (ts, s, r')"
      by simp
    then show "list_all (\<lambda>t. tr_category t = GENTLE) ts"
      by (rule select_many_simple_gentle)
  qed
  from len a b c d show ?thesis by blast
qed

text \<open>
  With the default weights and a random source that always returns 0, the first three
  draws are gentle and the fourth is forced to dynamic.
\<close>

theorem select_next_forces_category_switch_witness:
  "two_categories_weighted (TransitionSelector_init [] False False)
   \<and> select_many 4 (TransitionSelector_init [] False False) zero_rng =
       Inr ([mk_transition ''circlecrop'' GENTLE ''Soft circular crop reveal'',
             mk_transition ''circleclose'' GENTLE ''Circular close transition'',
             mk_transition ''circleopen'' GENTLE ''Circular open transition'',
             mk_transition ''smoothleft'' DYNAMIC ''Smooth left slide''],
            (TransitionSelector_init [] False False)
              \<lparr>history := [''circlecrop'', ''circleclose'', ''circleopen'', ''smoothleft''],
               category_history := [GENTLE, GENTLE, GENTLE, DYNAMIC]\<rparr>, zero_rng)
   \<and> [GENTLE, GENTLE, GENTLE, DYNAMIC] ! 3 \<noteq> [GENTLE, GENTLE, GENTLE, DYNAMIC] ! 2
   \<and> category_weights (TransitionSelector_init [] False False) DYNAMIC \<noteq> None"
proof -
  have tw: "two_categories_weighted (TransitionSelector_init [] False False)"
    by (simp add: two_categories_weighted_def TransitionSelector_init_def all_categories_def
          default_category_weights_simps)
  note run = run4 [unfolded default_selector_def]
  from select_next_forces_category_switch [OF run] tw
  have "\<forall>i. i + 3 < (4::nat) \<and> [GENTLE, GENTLE, GENTLE, DYNAMIC] ! i = [GENTLE, GENTLE, GENTLE, DYNAMIC] ! (i + 1)
                  \<and> [GENTLE, GENTLE, GENTLE, DYNAMIC] ! (i + 1) = [GENTLE, GENTLE, GENTLE, DYNAMIC] ! (i + 2) \<longrightarrow>
                [GENTLE, GENTLE, GENTLE, DYNAMIC] ! (i + 3) \<noteq> [GENTLE, GENTLE, GENTLE, DYNAMIC] ! (i + 2)
                \<and> category_weights (TransitionSelector_init [] False False)
                     ([GENTLE, GENTLE, GENTLE, DYNAMIC] ! (i + 3)) \<noteq> None"
    by simp
  from this [rule_format, of 0]
  have "[GENTLE, GENTLE, GENTLE, DYNAMIC] ! 3 \<noteq> [GENTLE, GENTLE, GENTLE, DYNAMIC] ! 2
        \<and> category_weights (TransitionSelector_init [] False False) DYNAMIC \<noteq> None"
    by simp
  with tw run show ?thesis by blast
qed







text \<open>
  Claim C10. For every selector state (with or without anniversary mode) and all
  arguments, \<open>should_add_anniversary_overlay\<close> returns \<open>False\<close> and leaves the selector,
  in particular \<open>overlay_history\<close> and \<open>overlay_count\<close>, and the random source unchanged.
\<close>

theorem should_add_anniversary_overlay_disabled:
  "fst (should_add_anniversary_overlay s r transition_index total_transitions) = False
   \<and> overlay_history (fst (snd (should_add_anniversary_overlay s r transition_index total_transitions)))
       = overlay_history s
   \<and> overlay_count (fst (snd (should_add_anniversary_overlay s r transition_index total_transitions)))
       = overlay_count s
   \<and> should_add_anniversary_overlay s r transition_index total_transitions = (False, s, r)"
  by (simp add: should_add_anniversary_overlay_def)

text \<open>The statements below the early return would add an overlay here.\<close>

lemma anniversary_overlay_policy_would_add:
  "fst (anniversary_overlay_policy (default_selector\<lparr>anniversary_mode := True\<rparr>) zero_rng 0 5) = True"
  by (simp add: anniversary_overlay_policy_def default_selector_def TransitionSelector_init_def
        random_random_zero Let_def)

section \<open>Segment rendering: results\<close>

text \<open>
  Claim C9, as stated, fails on the logging of a duration mismatch: the encoder exits
  with status 0 and the output exists, 120 frames were produced where 180 were expected,
  and the output lasts 4 seconds instead of 6. The call returns \<open>True\<close> and logs two
  errors, and no warning, although the duration is off by more than half a second.
\<close>

theorem render_segment_mismatch_counterexample:
  "render_segment example_renderer 6 (EngineFinished short_render) =
     (True, [(ERROR, ''FRAME COUNT MISMATCH''),
             (ERROR, ''This segment is longer or shorter than expected'')])
   \<and> (5 / 10 :: real) < \<bar>fst (get_duration (probed_duration short_render)) - 6\<bar>
   \<and> (WARNING, ''Duration difference'')
        \<notin> set (snd (render_segment example_renderer 6 (EngineFinished short_render)))"
  by (simp add: render_segment_def example_renderer_def short_render_def get_duration_def
        py_int_def Let_def)

text \<open>
  Claim C9, amended. When the encoder process finishes, \<open>render_segment\<close> returns
  \<open>False\<close> exactly when its exit status is non-zero or the output file is missing (an
  exception inside the call also gives \<open>False\<close>). Otherwise it returns \<open>True\<close>: a frame
  count off by more than 10 is logged as an error, without the warning, and a duration
  off by more than 0.5 seconds is logged as a warning when the frame count is within 10.
\<close>

theorem render_segment_result:
  "(fst (render_segment sr duration (EngineFinished res)) = False
      \<longleftrightarrow> returncode res \<noteq> 0 \<or> \<not> output_exists res)
   \<and> fst (render_segment sr duration EngineRaised) = False
   \<and> (returncode res = 0 \<and> output_exists res \<longrightarrow>
        fst (render_segment sr duration (EngineFinished res)) = True
        \<and> (10 < \<bar>frame_count res - py_int (duration * of_int (sr_fps sr))\<bar> \<longrightarrow>
             (ERROR, ''FRAME COUNT MISMATCH'')
               \<in> set (snd (render_segment sr duration (EngineFinished res)))
             \<and> (WARNING, ''Duration difference'')
               \<notin> set (snd (render_segment sr duration (EngineFinished res))))
        \<and> (\<bar>frame_count res - py_int (duration * of_int (sr_fps sr))\<bar> \<le> 10
             \<and> 5 / 10 < \<bar>fst (get_duration (probed_duration res)) - duration\<bar> \<longrightarrow>
             (WARNING, ''Duration difference'')
               \<in> set (snd (render_segment sr duration (EngineFinished res)))
             \<and> (ERROR, ''FRAME COUNT MISMATCH'')
               \<notin> set (snd (render_segment sr duration (EngineFinished res)))))"
  by (auto simp: render_segment_def get_duration_def Let_def split: option.splits prod.splits)

text \<open>A frame mismatch, a duration mismatch alone, and a failing encoder.\<close>

theorem render_segment_result_witness:
  "fst (render_segment example_renderer 6 (EngineFinished short_render)) = True
   \<and> (ERROR, ''FRAME COUNT MISMATCH'')
        \<in> set (snd (render_segment example_renderer 6 (EngineFinished short_render)))
   \<and> fst (render_segment example_renderer 6
            (EngineFinished (short_render\<lparr>frame_count := 175\<rparr>))) = True
   \<and> (WARNING, ''Duration difference'')
        \<in> set (snd (render_segment example_renderer 6
                      (EngineFinished (short_render\<lparr>frame_count := 175\<rparr>))))
   \<and> fst (render_segment example_renderer 6
            (EngineFinished (short_render\<lparr>returncode := 1\<rparr>))) = False"
proof -
  have a: "returncode short_render = 0 \<and> output_exists short_render
           \<and> 10 < \<bar>frame_count short_render - py_int (6 * of_int (sr_fps example_renderer))\<bar>"
    by (simp add: short_render_def example_renderer_def py_int_def)
  have b: "returncode (short_render\<lparr>frame_count := 175\<rparr>) = 0
           \<and> output_exists (short_render\<lparr>frame_count := 175\<rparr>)
           \<and> \<bar>frame_count (short_render\<lparr>frame_count := 175\<rparr>)
                - py_int (6 * of_int (sr_fps example_renderer))\<bar> \<le> 10
           \<and> 5 / 10 < \<bar>fst (get_duration (probed_duration (short_render\<lparr>frame_count := 175\<rparr>))) - 6\<bar>"
    by (simp add: short_render_def example_renderer_def py_int_def get_duration_def)
  have c: "returncode (short_render\<lparr>returncode := 1\<rparr>) \<noteq> 0"
    by simp
  from render_segment_result [of example_renderer 6 short_render] a
  have 1: "fst (render_segment example_renderer 6 (EngineFinished short_render)) = True
   \<and> (ERROR, ''FRAME COUNT MISMATCH'')
        \<in> set (snd (render_segment example_renderer 6 (EngineFinished short_render)))"
    by blast
  from render_segment_result [of example_renderer 6 "short_render\<lparr>frame_count := 175\<rparr>"] b
  have 2: "fst (render_segment example_renderer 6
            (EngineFinished (short_render\<lparr>frame_count := 175\<rparr>))) = True
   \<and> (WARNING, ''Duration difference'')
        \<in> set (snd (render_segment example_renderer 6
                      (EngineFinished (short_render\<lparr>frame_count := 175\<rparr>))))"
    by blast
  from render_segment_result [of example_renderer 6 "short_render\<lparr>returncode := 1\<rparr>"] c
  have 3: "fst (render_segment example_renderer 6
            (EngineFinished (short_render\<lparr>returncode := 1\<rparr>))) = False"
    by blast
  from 1 2 3 show ?thesis by blast
qed

section \<open>Particle simulation: results\<close>

subsection \<open>Pool size\<close>








lemma find_window_None:
  "find_window rs idx f = None \<longleftrightarrow> list_all (\<lambda>(s, e). \<not> (s \<le> f \<and> f < e)) rs"
  by (induction rs idx f rule: find_window.induct) auto

lemma update_and_render_effect:
  assumes "update_and_render g rf f lf tf st = Inr st'"
  shows "\<exists>b. written st' = written st @ [(f, b)]
           \<and> calls st' = calls st @ [(f, CallUpdate lf tf), (f, CallRender)]"
  using assms unfolding update_and_render_def
  by (auto split: option.splits sum.splits)

lemma frame_step_effect:
  assumes "frame_step g rf ranges tf f st = Inr st'"
  shows "\<exists>b cs. written st' = written st @ [(f, b)]
           \<and> calls st' = calls st @ cs
           \<and> list_all (\<lambda>x. fst x = f) cs
           \<and> (\<forall>rs. ranges = Some rs \<and> outside_ranges rs f \<longrightarrow> b = transparent_bytes g \<and> cs = [])
           \<and> (\<forall>rs. ranges = Some rs \<and> \<not> outside_ranges rs f \<longrightarrow> cs \<noteq> [])"
proof (cases ranges)
  case None
  show ?thesis
  proof (cases "particles st = None")
    case True
    with assms None obtain ps r where
      u: "update_and_render g rf f (int f) tf
            (st\<lparr>particles := Some ps, sim_rng := r,
                calls := calls st @ [(f, CallInit tf)]\<rparr>) = Inr st'"
      unfolding frame_step_def by (auto split: sum.splits)
    from update_and_render_effect [OF u] None show ?thesis by auto
  next
    case False
    with assms None have "update_and_render g rf f (int f) tf st = Inr st'"
      unfolding frame_step_def by simp
    from update_and_render_effect [OF this] None show ?thesis by auto
  qed
next
  case (Some rs)
  show ?thesis
  proof (cases "find_window rs 0 (int f)")
    case None
    then have "outside_ranges rs f"
      by (simp add: outside_ranges_def find_window_None)
    moreover from assms Some None
    have "st' = st\<lparr>written := written st @ [(f, transparent_bytes g)]\<rparr>"
      unfolding frame_step_def by simp
    ultimately show ?thesis using Some by auto
  next
    case (Some w)
    have no: "\<not> outside_ranges rs f"
    proof
      assume "outside_ranges rs f"
      then have "find_window rs 0 (int f) = None"
        unfolding outside_ranges_def by (simp only: find_window_None)
      with Some show False by simp
    qed
    obtain idx ws wl where w: "w = (idx, ws, wl)" by (cases w)
    show ?thesis
    proof (cases "int idx \<noteq> current_window_idx st")
      case True
      with assms \<open>ranges = Some rs\<close> Some w obtain ps r where
        u: "update_and_render g rf f (int f - ws) wl
              (st\<lparr>particles := Some ps, current_window_idx := int idx, sim_rng := r,
                  calls := calls st @ [(f, CallInit wl)]\<rparr>) = Inr st'"
        unfolding frame_step_def by (auto split: sum.splits)
      from update_and_render_effect [OF u] no \<open>ranges = Some rs\<close> show ?thesis by auto
    next
      case False
      with assms \<open>ranges = Some rs\<close> Some w
      have "update_and_render g rf f (int f - ws) wl st = Inr st'"
        unfolding frame_step_def by simp
      from update_and_render_effect [OF this] no \<open>ranges = Some rs\<close> show ?thesis by auto
    qed
  qed
qed

lemma run_frames_written_tags:
  "run_frames g rf ranges tf fs st = (None, st') \<Longrightarrow>
     map fst (written st') = map fst (written st) @ fs"
proof (induction fs arbitrary: st)
  case Nil
  then show ?case by simp
next
  case (Cons f fs)
  from Cons.prems obtain st1 where
    s: "frame_step g rf ranges tf f st = Inr st1" and
    r: "run_frames g rf ranges tf fs st1 = (None, st')"
    by (auto split: sum.splits)
  from frame_step_effect [OF s] obtain b where "written st1 = written st @ [(f, b)]"
    by blast
  with Cons.IH [OF r] show ?case by simp
qed

lemma frame_step_inactive_clean:
  assumes s: "frame_step g rf (Some rs) tf f st = Inr st'" and inv: "inactive_clean g rs st"
  shows "inactive_clean g rs st'"
proof -
  from frame_step_effect [OF s] obtain b cs where
    w: "written st' = written st @ [(f, b)]" and
    c: "calls st' = calls st @ cs" and
    t: "list_all (\<lambda>x. fst x = f) cs" and
    o: "outside_ranges rs f \<longrightarrow> b = transparent_bytes g \<and> cs = []"
    by blast
  have "\<forall>k b'. (k, b') \<in> set (written st') \<and> outside_ranges rs k \<longrightarrow> b' = transparent_bytes g"
    using inv w o unfolding inactive_clean_def by auto
  moreover have "\<forall>k c'. (k, c') \<in> set (calls st') \<longrightarrow> \<not> outside_ranges rs k"
  proof (intro allI impI)
    fix k c' assume m: "(k, c') \<in> set (calls st')"
    show "\<not> outside_ranges rs k"
    proof (cases "(k, c') \<in> set (calls st)")
      case True
      with inv show ?thesis unfolding inactive_clean_def by blast
    next
      case False
      with m c have in_cs: "(k, c') \<in> set cs" by simp
      with t have "k = f" by (auto simp: list_all_iff)
      with in_cs o show ?thesis by auto
    qed
  qed
  ultimately show ?thesis unfolding inactive_clean_def by blast
qed

lemma run_frames_inactive_clean:
  "run_frames g rf (Some rs) tf fs st = (err, st') \<Longrightarrow> inactive_clean g rs st
     \<Longrightarrow> inactive_clean g rs st'"
proof (induction fs arbitrary: st)
  case Nil
  then show ?case by simp
next
  case (Cons f fs)
  show ?case
  proof (cases "frame_step g rf (Some rs) tf f st")
    case (Inl e)
    with Cons.prems show ?thesis by simp
  next
    case (Inr st1)
    with Cons.prems have "run_frames g rf (Some rs) tf fs st1 = (err, st')" by simp
    from Cons.IH [OF this frame_step_inactive_clean [OF Inr Cons.prems(2)]] show ?thesis .
  qed
qed

lemma wf_rng_skip: "wf_rng r \<Longrightarrow> wf_rng (rng_skip n r)"
  by (simp add: wf_rng_def rng_skip_def)

lemma draw_pos:
  assumes "wf_rng r" and "0 < a" and "a \<le> b"
  shows "0 < draw r k a b"
proof -
  have "0 \<le> (b - a) * r k"
    using assms by (simp add: wf_rng_def)
  with assms(2) show ?thesis by (simp add: draw_def)
qed

lemma spawn_particle_ok:
  assumes c: "colors g \<noteq> []" and r: "wf_rng r" and tf: "1 \<le> tf" and f: "0 < fps g"
  shows "\<exists>p r'. spawn_particle g tf initial r = Inr (p, r') \<and> 0 < p_max_life p \<and> wf_rng r'"
proof -
  have t: "0 < (of_int tf :: real)" using tf by simp
  have fp: "0 < (of_int (fps g) :: real)" using f by simp
  have 1: "0 < draw r 3 (of_int tf * (5 / 10)) (of_int tf * (9 / 10))"
    using t by (intro draw_pos [OF r]) simp_all
  have 2: "0 < draw r 3 (of_int (fps g) * (5 / 10)) (of_int (fps g) * (15 / 10))"
    using fp by (intro draw_pos [OF r]) simp_all
  have 3: "0 < draw r 3 (of_int tf * (4 / 10)) (of_int tf * (8 / 10))"
    using t by (intro draw_pos [OF r]) simp_all
  have 4: "0 < draw r 3 (of_int tf * (3 / 10)) (of_int tf * (7 / 10))"
    using t by (intro draw_pos [OF r]) simp_all
  show ?thesis
    using c 1 2 3 4 wf_rng_skip [OF r]
    by (simp add: spawn_particle_def Let_def)
qed

lemma init_loop_ok:
  assumes "colors g \<noteq> []" and "1 \<le> tf" and "0 < fps g"
  shows "wf_rng r \<Longrightarrow> \<exists>ps r'. init_loop g tf n r = Inr (ps, r') \<and> pool_alive ps \<and> wf_rng r'"
proof (induction n arbitrary: r)
  case 0
  then show ?case by (simp add: pool_alive_def)
next
  case (Suc n)
  from spawn_particle_ok [OF assms(1) Suc.prems assms(2) assms(3), of True]
  obtain p r1 where s: "spawn_particle g tf True r = Inr (p, r1)" "0 < p_max_life p" "wf_rng r1"
    by blast
  from Suc.IH [OF s(3)] obtain ps r2 where
    "init_loop g tf n r1 = Inr (ps, r2)" "pool_alive ps" "wf_rng r2"
    by blast
  with s show ?case by (simp add: pool_alive_def)
qed

lemma advance_particle_ok:
  assumes "p_max_life p \<noteq> 0"
  shows "\<exists>q. advance_particle g p = Inr q \<and> p_max_life q = p_max_life p"
  using assms by (simp add: advance_particle_def life_progress_def Let_def)

lemma update_particle_ok:
  assumes "colors g \<noteq> []" and "wf_rng r" and "1 \<le> tf" and "0 < fps g" and "0 < p_max_life p"
  shows "\<exists>p' r'. update_particle g tf p r = Inr (p', r') \<and> 0 < p_max_life p' \<and> wf_rng r'"
proof -
  from assms(5) have "p_max_life p \<noteq> 0" by simp
  from advance_particle_ok [OF this, of g] obtain q where
    q: "advance_particle g p = Inr q" "p_max_life q = p_max_life p"
    by blast
  show ?thesis
  proof (cases "needs_respawn g q")
    case True
    with q spawn_particle_ok [OF assms(1-4), of False] show ?thesis
      by (simp add: update_particle_def)
  next
    case False
    with q assms(2,5) show ?thesis
      by (simp add: update_particle_def)
  qed
qed

lemma update_particles_ok:
  assumes "colors g \<noteq> []" and "1 \<le> tf" and "0 < fps g"
  shows "wf_rng r \<Longrightarrow> pool_alive ps \<Longrightarrow>
         \<exists>ps' r'. update_particles g ps frame_num tf r = Inr (ps', r') \<and> pool_alive ps' \<and> wf_rng r'"
proof (induction ps arbitrary: r)
  case Nil
  then show ?case by simp
next
  case (Cons p ps)
  from Cons.prems(2) have p: "0 < p_max_life p" and ps: "pool_alive ps"
    by (simp_all add: pool_alive_def)
  from update_particle_ok [OF assms(1) Cons.prems(1) assms(2) assms(3) p]
  obtain p' r1 where u: "update_particle g tf p r = Inr (p', r1)" "0 < p_max_life p'" "wf_rng r1"
    by blast
  from Cons.IH [OF u(3) ps] obtain ps' r2 where
    "update_particles g ps frame_num tf r1 = Inr (ps', r2)" "pool_alive ps'" "wf_rng r2"
    by blast
  with u show ?case by (simp add: pool_alive_def)
qed

lemma update_and_render_ok:
  assumes "colors g \<noteq> []" and "1 \<le> tf" and "0 < fps g"
      and "wf_rng (sim_rng st)" and "particles st = Some ps" and "pool_alive ps"
  shows "\<exists>st'. update_and_render g rf f lf tf st = Inr st' \<and> sim_ok st'"
proof -
  from update_particles_ok [OF assms(1-3) assms(4) assms(6), of lf]
  obtain ps' r' where
    "update_particles g ps lf tf (sim_rng st) = Inr (ps', r')" "pool_alive ps'" "wf_rng r'"
    by blast
  with assms(5) show ?thesis
    by (simp add: update_and_render_def sim_ok_def)
qed

lemma find_window_Some:
  "find_window rs idx f = Some (i, s, l) \<Longrightarrow> 1 \<le> l \<and> idx \<le> i"
  by (induction rs idx f rule: find_window.induct) (auto split: if_splits)

lemma frame_step_ok:
  assumes c: "colors g \<noteq> []" and tf: "1 \<le> tf" and f: "0 < fps g" and ok: "sim_ok st"
  shows "\<exists>st'. frame_step g rf ranges tf k st = Inr st' \<and> sim_ok st'"
proof (cases ranges)
  case None
  show ?thesis
  proof (cases "particles st")
    case pn: None
    from ok have w: "wf_rng (sim_rng st)" by (simp add: sim_ok_def)
    from init_loop_ok [OF c tf f w] obtain ps r where
      i: "init_particles g tf (sim_rng st) = Inr (ps, r)" "pool_alive ps" "wf_rng r"
      unfolding init_particles_def by blast
    let ?st1 = "st\<lparr>particles := Some ps, sim_rng := r, calls := calls st @ [(k, CallInit tf)]\<rparr>"
    from update_and_render_ok [OF c tf f, of ?st1 ps rf k "int k"] i
    obtain st' where "update_and_render g rf k (int k) tf ?st1 = Inr st'" "sim_ok st'"
      by auto
    with None pn i(1) show ?thesis
      by (simp add: frame_step_def)
  next
    case (Some ps)
    with ok have "wf_rng (sim_rng st)" "pool_alive ps" by (simp_all add: sim_ok_def)
    from update_and_render_ok [OF c tf f this(1) Some this(2), of rf k "int k"]
    obtain st' where "update_and_render g rf k (int k) tf st = Inr st'" "sim_ok st'"
      by blast
    with None Some show ?thesis
      by (simp add: frame_step_def)
  qed
next
  case (Some rs)
  note rs = this
  show ?thesis
  proof (cases "find_window rs 0 (int k)")
    case None
    with rs ok show ?thesis
      by (auto simp: frame_step_def sim_ok_def split: option.splits)
  next
    case (Some w)
    obtain idx ws wl where w: "w = (idx, ws, wl)" by (cases w)
    from Some w find_window_Some have wl: "1 \<le> wl" by blast
    from ok have wr: "wf_rng (sim_rng st)" by (simp add: sim_ok_def)
    show ?thesis
    proof (cases "int idx \<noteq> current_window_idx st")
      case True
      from init_loop_ok [OF c wl f wr] obtain ps r where
        i: "init_particles g wl (sim_rng st) = Inr (ps, r)" "pool_alive ps" "wf_rng r"
        unfolding init_particles_def by blast
      let ?st1 = "st\<lparr>particles := Some ps, current_window_idx := int idx, sim_rng := r,
                      calls := calls st @ [(k, CallInit wl)]\<rparr>"
      from update_and_render_ok [OF c wl f, of ?st1 ps rf k "int k - ws"] i
      obtain st' where "update_and_render g rf k (int k - ws) wl ?st1 = Inr st'" "sim_ok st'"
        by auto
      with rs Some w True i(1) show ?thesis
        by (simp add: frame_step_def)
    next
      case False
      then have "0 \<le> current_window_idx st" by simp
      with ok obtain ps where ps: "particles st = Some ps" "pool_alive ps"
        by (auto simp: sim_ok_def split: option.splits)
      from update_and_render_ok [OF c wl f wr ps, of rf k "int k - ws"]
      obtain st' where "update_and_render g rf k (int k - ws) wl st = Inr st'" "sim_ok st'"
        by blast
      with rs Some w False show ?thesis
        by (simp add: frame_step_def)
    qed
  qed
qed

lemma run_frames_ok:
  assumes "colors g \<noteq> []" and "1 \<le> tf" and "0 < fps g"
  shows "sim_ok st \<Longrightarrow> \<exists>st'. run_frames g rf ranges tf fs st = (None, st') \<and> sim_ok st'"
proof (induction fs arbitrary: st)
  case Nil
  then show ?case by simp
next
  case (Cons k fs)
  from frame_step_ok [OF assms Cons.prems] obtain st1 where
    "frame_step g rf ranges tf k st = Inr st1" "sim_ok st1"
    by blast
  with Cons.IH [of st1] show ?case by simp
qed

lemma initial_sim_ok: "wf_rng r \<Longrightarrow> sim_ok (initial_sim_state r)"
  by (simp add: sim_ok_def initial_sim_state_def)

lemma generate_overlay_video_completes:
  assumes c: "colors g \<noteq> []" and f: "0 < fps g" and r: "wf_rng r"
      and n: "0 < py_int (duration * of_int (fps g))"
  shows "\<exists>st. generate_overlay_video g True rf com r duration ws = (com = Some 0, st)
           \<and> map fst (written st) = [0..<nat (py_int (duration * of_int (fps g)))]"
proof -
  let ?N = "py_int (duration * of_int (fps g))"
  let ?rs = "case ws of None \<Rightarrow> None
             | Some ws \<Rightarrow> if ws = [] then None else Some (frame_ranges g ?N ws)"
  from n have n1: "1 \<le> ?N" by simp
  from run_frames_ok [OF c n1 f initial_sim_ok [OF r]]
  obtain st where
    run: "run_frames g rf ?rs ?N [0..<nat ?N] (initial_sim_state r) = (None, st)"
    by blast
  from run_frames_written_tags [OF run]
  have "map fst (written st) = [0..<nat ?N]"
    by (simp add: initial_sim_state_def)
  moreover have "generate_overlay_video g True rf com r duration ws = (com = Some 0, st)"
    using n run by (cases com) (simp_all add: generate_overlay_video_def Let_def)
  ultimately show ?thesis by blast
qed

lemma tiny_generator_fields:
  "width tiny_generator = 2" "height tiny_generator = 1" "fps tiny_generator = 30"
  "particle_count tiny_generator = 32" "particle_type tiny_generator = HEARTS"
  "colors tiny_generator \<noteq> []"
  by (simp_all add: tiny_generator_def ParticleOverlayGenerator_init_def
        ParticleType_of_value_def py_int_def Let_def)

lemma wf_zero_rng: "wf_rng zero_rng"
  by (simp add: wf_rng_def zero_rng_def)

lemma generate_overlay_video_True:
  assumes "fst (generate_overlay_video g pil rf com r duration ws)"
  shows "0 < py_int (duration * of_int (fps g))
         \<and> com = Some 0
         \<and> map fst (written (snd (generate_overlay_video g pil rf com r duration ws)))
             = [0..<nat (py_int (duration * of_int (fps g)))]"
proof -
  let ?N = "py_int (duration * of_int (fps g))"
  let ?rs = "case ws of None \<Rightarrow> None
             | Some ws \<Rightarrow> if ws = [] then None else Some (frame_ranges g ?N ws)"
  from assms have pil: pil and n: "0 < ?N"
    by (auto simp: generate_overlay_video_def Let_def split: if_splits)
  obtain err st where run: "run_frames g rf ?rs ?N [0..<nat ?N] (initial_sim_state r) = (err, st)"
    by (cases "run_frames g rf ?rs ?N [0..<nat ?N] (initial_sim_state r)")
  have res: "generate_overlay_video g pil rf com r duration ws =
               (case err of Some e \<Rightarrow> (False, st) | None \<Rightarrow> (com = Some 0, st))"
    using pil n run
    by (cases com) (simp_all add: generate_overlay_video_def Let_def split: option.splits)
  with assms have e: "err = None" by (cases err) simp_all
  with res assms have c: "com = Some 0" by simp
  from run_frames_written_tags [OF run [unfolded e]]
  have "map fst (written st) = [0..<nat ?N]"
    by (simp add: initial_sim_state_def)
  with res e n c show ?thesis by simp
qed

lemma short_overlay_run_frames:
  "short_overlay_run com = (com = Some 0, snd (short_overlay_run com))
   \<and> map fst (written (snd (short_overlay_run com))) = [0..<18]"
proof -
  have n: "py_int (5 / 8 * of_int (fps tiny_generator)) = 18"
    by (simp add: tiny_generator_fields py_int_def)
  then have p: "0 < py_int (5 / 8 * of_int (fps tiny_generator))" by simp
  have f: "0 < fps tiny_generator" by (simp add: tiny_generator_fields)
  from generate_overlay_video_completes [OF tiny_generator_fields(6) f wf_zero_rng p,
        of count_rasteriser com None]
  obtain st where st: "short_overlay_run com = (com = Some 0, st)"
    and tags: "map fst (written st) = [0..<nat (py_int (5 / 8 * of_int (fps tiny_generator)))]"
    unfolding short_overlay_run_def by auto
  from tags [unfolded n] show ?thesis by (simp add: st)
qed

text \<open>
  Claim C3, as stated, fails: for 0.625 seconds at 30 frames per second the product is
  18.75 and \<open>round\<close> gives 19, but the simulator writes 18 frames, both when
  \<open>communicate\<close> raises and when it returns the exit status 0.
\<close>

theorem generate_overlay_video_truncates_counterexample:
  "length (written (snd (short_overlay_run None))) = 18
   \<and> length (written (snd (short_overlay_run (Some 0)))) = 18
   \<and> py_round (5 / 8 * of_int (fps tiny_generator)) = 19"
proof -
  have a: "length (written (snd (short_overlay_run None))) = 18"
    using arg_cong [OF conjunct2 [OF short_overlay_run_frames [of None]], of length] by simp
  have b: "length (written (snd (short_overlay_run (Some 0)))) = 18"
    using arg_cong [OF conjunct2 [OF short_overlay_run_frames [of "Some 0"]], of length] by simp
  have "\<lfloor>(5 / 8 * 30 :: real)\<rfloor> = 18" by linarith
  then have "py_round (5 / 8 * of_int (fps tiny_generator)) = 19"
    by (simp add: tiny_generator_fields py_round_def Let_def)
  with a b show ?thesis by simp
qed

text \<open>
  Claim C3, amended. The number of frames is \<open>int(duration * fps)\<close>, the product
  truncated toward zero. When it is not positive the simulator writes nothing and returns
  \<open>False\<close>. When it is positive, the imaging library is available, the palette is not
  empty, the frame rate is positive and the random values lie in \<open>[0, 1)\<close>, the simulator
  writes exactly that many frames, the \<open>k\<close>-th write being the frame of iteration \<open>k\<close>,
  and then returns \<open>True\<close> exactly when \<open>communicate\<close> returns with exit status 0; when
  \<open>communicate\<close> raises, the frames have been written and the result is \<open>False\<close>. In every
  case a result \<open>True\<close> means that exactly that many frames were written, in order.
\<close>

theorem generate_overlay_video_frame_count:
  "(py_int (duration * of_int (fps g)) \<le> 0 \<longrightarrow>
      generate_overlay_video g pil rf com r duration ws = (False, initial_sim_state r)
      \<and> written (snd (generate_overlay_video g pil rf com r duration ws)) = [])
   \<and> (fst (generate_overlay_video g pil rf com r duration ws) \<longrightarrow>
        0 < py_int (duration * of_int (fps g))
        \<and> com = Some 0
        \<and> map fst (written (snd (generate_overlay_video g pil rf com r duration ws)))
            = [0..<nat (py_int (duration * of_int (fps g)))]
        \<and> length (written (snd (generate_overlay_video g pil rf com r duration ws)))
            = nat (py_int (duration * of_int (fps g))))
   \<and> (0 < py_int (duration * of_int (fps g)) \<and> colors g \<noteq> [] \<and> 0 < fps g \<and> wf_rng r
        \<and> pil \<longrightarrow>
        map fst (written (snd (generate_overlay_video g pil rf com r duration ws)))
            = [0..<nat (py_int (duration * of_int (fps g)))]
        \<and> length (written (snd (generate_overlay_video g pil rf com r duration ws)))
            = nat (py_int (duration * of_int (fps g)))
        \<and> fst (generate_overlay_video g pil rf com r duration ws) = (com = Some 0))"
proof (intro conjI impI)
  assume "py_int (duration * of_int (fps g)) \<le> 0"
  then show "generate_overlay_video g pil rf com r duration ws = (False, initial_sim_state r)"
    by (simp add: generate_overlay_video_def Let_def)
  then show "written (snd (generate_overlay_video g pil rf com r duration ws)) = []"
    by (simp add: initial_sim_state_def)
next
  assume t: "fst (generate_overlay_video g pil rf com r duration ws)"
  note u = generate_overlay_video_True [OF t]
  from u show "0 < py_int (duration * of_int (fps g))"
    by (rule conjunct1)
  from u show "com = Some 0"
    by blast
  from u show m: "map fst (written (snd (generate_overlay_video g pil rf com r duration ws)))
            = [0..<nat (py_int (duration * of_int (fps g)))]"
    by blast
  from arg_cong [OF m, of length]
  show "length (written (snd (generate_overlay_video g pil rf com r duration ws)))
            = nat (py_int (duration * of_int (fps g)))"
    by simp
next
  assume a: "0 < py_int (duration * of_int (fps g)) \<and> colors g \<noteq> [] \<and> 0 < fps g \<and> wf_rng r
        \<and> pil"
  then have "0 < py_int (duration * of_int (fps g))" "colors g \<noteq> []" "0 < fps g" "wf_rng r"
    and pil: pil
    by simp_all
  from generate_overlay_video_completes [OF this(2) this(3) this(4) this(1), of rf com ws] pil
  obtain st where st: "generate_overlay_video g pil rf com r duration ws = (com = Some 0, st)"
    and m: "map fst (written st) = [0..<nat (py_int (duration * of_int (fps g)))]"
    by auto
  from m show "map fst (written (snd (generate_overlay_video g pil rf com r duration ws)))
            = [0..<nat (py_int (duration * of_int (fps g)))]"
    by (simp add: st)
  from arg_cong [OF m, of length]
  show "length (written (snd (generate_overlay_video g pil rf com r duration ws)))
            = nat (py_int (duration * of_int (fps g)))"
    by (simp add: st)
  show "fst (generate_overlay_video g pil rf com r duration ws) = (com = Some 0)"
    by (simp add: st)
qed

text \<open>
  The run of 0.625 seconds writes the frames 0 to 17 and returns \<open>False\<close> when
  \<open>communicate\<close> raises, \<open>True\<close> when it returns 0; a run of 0.02 seconds writes nothing.
\<close>

theorem generate_overlay_video_frame_count_witness:
  "map fst (written (snd (short_overlay_run None))) = [0..<18]
   \<and> fst (short_overlay_run None) = False
   \<and> map fst (written (snd (short_overlay_run (Some 0)))) = [0..<18]
   \<and> fst (short_overlay_run (Some 0)) = True
   \<and> generate_overlay_video tiny_generator True count_rasteriser (Some 0) zero_rng (1 / 50) None
       = (False, initial_sim_state zero_rng)"
proof -
  have n: "py_int (5 / 8 * of_int (fps tiny_generator)) = 18"
    by (simp add: tiny_generator_fields py_int_def)
  have z: "py_int (1 / 50 * of_int (fps tiny_generator)) \<le> 0"
    by (simp add: tiny_generator_fields py_int_def)
  have h: "0 < py_int (5 / 8 * of_int (fps tiny_generator)) \<and> colors tiny_generator \<noteq> []
           \<and> 0 < fps tiny_generator \<and> wf_rng zero_rng \<and> True"
    using n tiny_generator_fields wf_zero_rng by simp
  from generate_overlay_video_frame_count
    [of "5 / 8" tiny_generator True count_rasteriser None zero_rng None] h n
  have a: "map fst (written (snd (short_overlay_run None))) = [0..<18]
           \<and> fst (short_overlay_run None) = False"
    unfolding short_overlay_run_def by simp
  from generate_overlay_video_frame_count
    [of "5 / 8" tiny_generator True count_rasteriser "Some 0" zero_rng None] h n
  have b: "map fst (written (snd (short_overlay_run (Some 0)))) = [0..<18]
           \<and> fst (short_overlay_run (Some 0)) = True"
    unfolding short_overlay_run_def by simp
  from generate_overlay_video_frame_count
    [of "1 / 50" tiny_generator True count_rasteriser "Some 0" zero_rng None] z
  have "generate_overlay_video tiny_generator True count_rasteriser (Some 0) zero_rng (1 / 50) None
       = (False, initial_sim_state zero_rng)"
    by blast
  with a b show ?thesis by blast
qed

lemma initial_inactive_clean: "inactive_clean g rs (initial_sim_state r)"
  by (simp add: inactive_clean_def initial_sim_state_def)

lemma generate_overlay_video_inactive_clean:
  assumes "ws \<noteq> []"
  shows "inactive_clean g (frame_ranges g (py_int (duration * of_int (fps g))) ws)
           (snd (generate_overlay_video g pil rf com r duration (Some ws)))"
proof -
  let ?N = "py_int (duration * of_int (fps g))"
  let ?rs = "frame_ranges g ?N ws"
  show ?thesis
  proof (cases "pil \<and> 0 < ?N")
    case False
    then have "snd (generate_overlay_video g pil rf com r duration (Some ws)) = initial_sim_state r"
      by (auto simp: generate_overlay_video_def Let_def)
    with initial_inactive_clean show ?thesis by simp
  next
    case True
    obtain err st where
      run: "run_frames g rf (Some ?rs) ?N [0..<nat ?N] (initial_sim_state r) = (err, st)"
      by (cases "run_frames g rf (Some ?rs) ?N [0..<nat ?N] (initial_sim_state r)")
    from run_frames_inactive_clean [OF run initial_inactive_clean]
    have c: "inactive_clean g ?rs st" .
    have "snd (generate_overlay_video g pil rf com r duration (Some ws)) = st"
      using True assms run
      by (simp add: generate_overlay_video_def Let_def split: option.splits)
    with c show ?thesis by simp
  qed
qed

text \<open>
  Claim C7. With a non-empty list of active windows, every frame that the simulator
  writes for an index outside all frame ranges of the windows is the precomputed
  transparent frame, \<open>width * height * 4\<close> zero bytes, and the run makes no call of
  \<open>_init_particles\<close>, \<open>_update_particles\<close> or \<open>_render_frame\<close> for such an index. This
  holds for the frames written so far also when the run ends in an exception.
\<close>

theorem inactive_frames_transparent:
  assumes "ws \<noteq> []"
  shows "\<forall>k b. (k, b) \<in> set (written (snd (generate_overlay_video g pil rf com r duration (Some ws))))
               \<and> outside_ranges (frame_ranges g (py_int (duration * of_int (fps g))) ws) k
           \<longrightarrow> b = replicate (nat (width g * height g * 4)) 0
               \<and> list_all (\<lambda>byte. byte = 0) b
               \<and> (\<forall>c. (k, c) \<notin> set (calls (snd (generate_overlay_video g pil rf com r duration
                                                     (Some ws)))))"
proof (intro allI impI)
  fix k b
  assume a: "(k, b) \<in> set (written (snd (generate_overlay_video g pil rf com r duration (Some ws))))
               \<and> outside_ranges (frame_ranges g (py_int (duration * of_int (fps g))) ws) k"
  note c = generate_overlay_video_inactive_clean [OF assms, of g duration pil rf com r]
  from c a have b: "b = transparent_bytes g"
    unfolding inactive_clean_def by blast
  from c a have n: "\<forall>c. (k, c) \<notin> set (calls (snd (generate_overlay_video g pil rf com r duration
                                                     (Some ws))))"
    unfolding inactive_clean_def by blast
  from b have "list_all (\<lambda>byte. byte = 0) b"
    by (simp add: transparent_bytes_def list_all_iff)
  with b n show "b = replicate (nat (width g * height g * 4)) 0
               \<and> list_all (\<lambda>byte. byte = 0) b
               \<and> (\<forall>c. (k, c) \<notin> set (calls (snd (generate_overlay_video g pil rf com r duration
                                                     (Some ws)))))"
    by (simp add: transparent_bytes_def)
qed

lemma spec_overlay_run_frames:
  "map fst (written (snd spec_overlay_run)) = [0..<150]"
proof -
  have n: "py_int (5 * of_int (fps tiny_generator)) = 150"
    by (simp add: tiny_generator_fields py_int_def)
  then have p: "0 < py_int (5 * of_int (fps tiny_generator))" by simp
  have f: "0 < fps tiny_generator" by (simp add: tiny_generator_fields)
  from generate_overlay_video_completes [OF tiny_generator_fields(6) f wf_zero_rng p,
        of count_rasteriser None "Some [(0, 1), (4, 5)]"]
  obtain st where st: "spec_overlay_run = (False, st)"
    and tags: "map fst (written st) = [0..<nat (py_int (5 * of_int (fps tiny_generator)))]"
    unfolding spec_overlay_run_def by auto
  from tags show ?thesis by (simp add: st n)
qed

lemma tagged_nth:
  assumes "map fst W = [0..<n]" and "k < n"
  shows "(k, snd (W ! k)) \<in> set W" and "W ! k = (k, snd (W ! k))"
proof -
  from assms(1) have len: "length W = n"
    using length_map [of fst W] by simp
  with assms(2) have "fst (W ! k) = [0..<n] ! k"
    using nth_map [of k W fst] assms(1) by simp
  with assms(2) have f: "fst (W ! k) = k" by simp
  then show e: "W ! k = (k, snd (W ! k))"
    by (cases "W ! k") simp
  from len assms(2) have "W ! k \<in> set W" by simp
  with e show "(k, snd (W ! k)) \<in> set W" by simp
qed

text \<open>
  The scenario of the specification, 5 seconds at 30 frames per second with the windows
  (0, 1) and (4, 5): 150 frames are written; the frames 30 and 119 are transparent.
\<close>

theorem inactive_frames_transparent_witness:
  "[(0 :: real, 1 :: real), (4, 5)] \<noteq> []
   \<and> map fst (written (snd spec_overlay_run)) = [0..<150]
   \<and> outside_ranges (frame_ranges tiny_generator 150 [(0, 1), (4, 5)]) 30
   \<and> outside_ranges (frame_ranges tiny_generator 150 [(0, 1), (4, 5)]) 119
   \<and> written (snd spec_overlay_run) ! 30 = (30, [0, 0, 0, 0, 0, 0, 0, 0])
   \<and> written (snd spec_overlay_run) ! 119 = (119, [0, 0, 0, 0, 0, 0, 0, 0])
   \<and> (\<forall>c. (30, c) \<notin> set (calls (snd spec_overlay_run)))"
proof -
  let ?W = "written (snd spec_overlay_run)"
  from spec_overlay_run_frames have tags: "map fst ?W = [0..<150]" .
  have n: "py_int (5 * of_int (fps tiny_generator)) = 150"
    by (simp add: tiny_generator_fields py_int_def)
  have o30: "outside_ranges (frame_ranges tiny_generator 150 [(0, 1), (4, 5)]) 30"
    by (simp add: outside_ranges_def frame_ranges_def tiny_generator_fields py_int_def)
  have o119: "outside_ranges (frame_ranges tiny_generator 150 [(0, 1), (4, 5)]) 119"
    by (simp add: outside_ranges_def frame_ranges_def tiny_generator_fields py_int_def)
  have ne: "[(0 :: real, 1 :: real), (4, 5)] \<noteq> []" by simp
  note t = inactive_frames_transparent [OF ne, of tiny_generator True count_rasteriser None zero_rng 5,
      folded spec_overlay_run_def, unfolded n]
  have w: "replicate (nat (width tiny_generator * height tiny_generator * 4)) (0::nat)
             = [0, 0, 0, 0, 0, 0, 0, 0]"
    by (simp add: tiny_generator_fields eval_nat_numeral)
  have m30: "(30, snd (?W ! 30)) \<in> set ?W" and e30: "?W ! 30 = (30, snd (?W ! 30))"
    using tagged_nth [OF tags, of 30] by simp_all
  have m119: "(119, snd (?W ! 119)) \<in> set ?W" and e119: "?W ! 119 = (119, snd (?W ! 119))"
    using tagged_nth [OF tags, of 119] by simp_all
  from t [rule_format, of 30 "snd (?W ! 30)"] m30 o30 w
  have a: "snd (?W ! 30) = [0, 0, 0, 0, 0, 0, 0, 0]"
    and c: "\<forall>c. (30, c) \<notin> set (calls (snd spec_overlay_run))"
    by simp_all
  from t [rule_format, of 119 "snd (?W ! 119)"] m119 o119 w
  have b: "snd (?W ! 119) = [0, 0, 0, 0, 0, 0, 0, 0]"
    by simp
  from a e30 have a': "?W ! 30 = (30, [0, 0, 0, 0, 0, 0, 0, 0])" by simp
  from b e119 have b': "?W ! 119 = (119, [0, 0, 0, 0, 0, 0, 0, 0])" by simp
  from ne tags o30 o119 a' b' c show ?thesis by blast
qed










end
